theory Spec2Isabelle
  imports Complex_Main
begin

section \<open>Errors and tensor helpers\<close>

text \<open>The exceptions the Python code (or the tensor library under it) can raise.\<close>

datatype error = IndexError | KeyError | ValueError | AssertionError | RuntimeError | TypeError

definition ebind :: "error + 'a \<Rightarrow> ('a \<Rightarrow> error + 'b) \<Rightarrow> error + 'b" where
  "ebind m f = (case m of Inl e \<Rightarrow> Inl e | Inr v \<Rightarrow> f v)"

text \<open>\<open>t[i]\<close> with a non-negative index: out of range raises IndexError.\<close>

definition getitem :: "'a list \<Rightarrow> nat \<Rightarrow> error + 'a" where
  "getitem xs i = (if i < length xs then Inr (xs ! i) else Inl IndexError)"

text \<open>A comprehension whose body can raise: the first error aborts it.\<close>

fun emap :: "('a \<Rightarrow> error + 'b) \<Rightarrow> 'a list \<Rightarrow> error + 'b list" where
  "emap f [] = Inr []"
| "emap f (x # xs) = ebind (f x) (\<lambda>v. ebind (emap f xs) (\<lambda>vs. Inr (v # vs)))"

text \<open>\<open>t[idx]\<close> with an index tensor \<open>idx\<close> (advanced indexing along dimension 0).\<close>

definition gather :: "'a list \<Rightarrow> nat list \<Rightarrow> error + 'a list" where
  "gather xs idx = emap (getitem xs) idx"

text \<open>A two-dimensional float tensor. The column count is kept beside the rows, so that
  a tensor with zero rows still has its shape (\<open>torch.zeros(0, 4)\<close>).\<close>

record mat =
  ncols :: nat
  rows :: "real list list"

definition zeros :: "nat \<Rightarrow> nat \<Rightarrow> mat" where
  "zeros m k = \<lparr>ncols = k, rows = replicate m (replicate k 0)\<rparr>"

text \<open>\<open>t[i, j] = v\<close> for each triple in turn, as the indexed assignment
  \<open>t[rows, cols] = vals\<close> does; an index outside the tensor raises IndexError.\<close>

fun index_put :: "mat \<Rightarrow> (nat \<times> nat \<times> real) list \<Rightarrow> error + mat" where
  "index_put m [] = Inr m"
| "index_put m ((i, j, v) # ws) =
     (if i < length (rows m) \<and> j < ncols m
      then index_put (m\<lparr>rows := (rows m)[i := (rows m ! i)[j := v]]\<rparr>) ws
      else Inl IndexError)"

text \<open>\<open>torch.nonzero(m).unbind(1)\<close> on a two-dimensional tensor: the positions of the
  entries that are true (non-zero), in row-major order, as (row, column) pairs.\<close>

definition nonzero :: "bool list list \<Rightarrow> (nat \<times> nat) list" where
  "nonzero m = concat (map (\<lambda>(i, row). map (\<lambda>(j, b). (i, j)) (filter snd (enumerate 0 row)))
                           (enumerate 0 m))"

text \<open>Broadcasting of one dimension: equal sizes, or one of them is 1.\<close>

definition broadcast_shape :: "nat \<Rightarrow> nat \<Rightarrow> error + nat" where
  "broadcast_shape a b =
     (if a = b then Inr a else if a = 1 then Inr b else if b = 1 then Inr a
      else Inl RuntimeError)"

definition expand :: "nat \<Rightarrow> 'a list \<Rightarrow> 'a list" where
  "expand k xs = (if length xs = k then xs else replicate k (hd xs))"

text \<open>Every row of the matrix has \<open>ncols\<close> entries.\<close>

definition rect :: "mat \<Rightarrow> bool" where
  "rect m \<longleftrightarrow> (\<forall>r \<in> set (rows m). length r = ncols m)"

subsection \<open>Boxes and targets\<close>

text \<open>A box is a row of four coordinates; a tensor of \<open>N\<close> boxes (\<open>Tensor[N, 4]\<close>) is a
  list of boxes, so the empty list is the \<open>0 \<times> 4\<close> tensor.\<close>

type_synonym box = "real \<times> real \<times> real \<times> real"

text \<open>The interaction targets of one image (a dict in the source).\<close>

record target =
  tgt_boxes_h :: "box list"
  tgt_boxes_o :: "box list"
  tgt_object :: "nat list"
  tgt_labels :: "nat list"

section \<open>InteractionHead.postprocess\<close>






text \<open>The dict \<open>postprocess\<close> builds for one image; the two label entries are there only
  when labels are provided.\<close>

record result =
  res_boxes_h :: "box list"
  res_boxes_o :: "box list"
  res_index :: "nat list"
  res_prediction :: "nat list"
  res_scores :: "real list"
  res_object :: "nat list"
  res_prior :: "real list list"
  res_weights :: "real list"
  res_labels :: "real list option"
  res_binary_labels :: "real list option"


text \<open>Lines 208 and 209: an empty list of labels is replaced by one \<open>None\<close> per image.\<close>

definition labels_or_none :: "mat list \<Rightarrow> nat \<Rightarrow> mat option list" where
  "labels_or_none labels n = (if length labels = 0 then replicate n None else map Some labels)"


section \<open>The losses of InteractionHead\<close>

text \<open>The value of a floating-point division: the loss is a tensor, and dividing a tensor
  by zero raises nothing but gives an infinity, or NaN for \<open>0 / 0\<close>. The sum-reduced
  focal loss itself is taken to be a (finite) real.\<close>

datatype fval = Finite real | PosInf | NegInf | NaN

definition tensor_div :: "real \<Rightarrow> real \<Rightarrow> fval" where
  "tensor_div a d =
     (if d \<noteq> 0 then Finite (a / d)
      else if 0 < a then PosInf else if a < 0 then NegInf else NaN)"

text \<open>\<open>torch.cat\<close> of a list of one-dimensional tensors; an empty list raises.\<close>

definition tensor_cat :: "'a list list \<Rightarrow> error + 'a list" where
  "tensor_cat ts = (if ts = [] then Inl RuntimeError else Inr (concat ts))"

text \<open>Reading a key of a result dict that is there only when labels were provided.\<close>

definition get_key :: "'a option \<Rightarrow> error + 'a" where
  "get_key v = (case v of None \<Rightarrow> Inl KeyError | Some x \<Rightarrow> Inr x)"

text \<open>The process group as one worker sees it: \<open>dist.get_world_size()\<close>, and
  \<open>dist.all_reduce\<close> applied to the worker's own count, which returns the sum of the
  counts of all workers. \<open>worker_env ps i\<close> is the view of worker \<open>i\<close> among \<open>length ps\<close>
  workers, where worker \<open>j\<close> contributes \<open>ps ! j\<close>.\<close>

record dist_env =
  get_world_size :: nat
  all_reduce :: "nat \<Rightarrow> nat"

definition worker_env :: "nat list \<Rightarrow> nat \<Rightarrow> dist_env" where
  "worker_env ps i = \<lparr>get_world_size = length ps, all_reduce = (\<lambda>n. sum_list (ps[i := n]))\<rparr>"

text \<open>The divisor \<open>n_p\<close> of both losses (lines 150 to 156 and 170 to 176): the number of
  non-zero labels, in distributed mode summed over the workers and divided by their
  number (a true division).\<close>

definition positive_count :: "bool \<Rightarrow> dist_env \<Rightarrow> real list \<Rightarrow> real" where
  "positive_count distributed env labels =
     (let n_p = length (filter (\<lambda>v. v \<noteq> 0) labels)
      in if distributed
         then let world_size = get_world_size env;
                  n_p = all_reduce env n_p
              in real n_p / real world_size
         else real n_p)"

text \<open>\<open>binary_focal_loss\<close> comes from the module \<open>ops\<close>; it is a parameter here, called
  with the scores, the labels and \<open>gamma\<close>, with \<open>reduction='sum'\<close>.\<close>

definition compute_interaction_classification_loss ::
  "(real list \<Rightarrow> real list \<Rightarrow> real \<Rightarrow> real) \<Rightarrow> real \<Rightarrow> bool \<Rightarrow> dist_env \<Rightarrow> result list
   \<Rightarrow> error + fval" where
  "compute_interaction_classification_loss binary_focal_loss gamma distributed env results =
     ebind (emap (\<lambda>result. ebind (get_key (res_labels result)) (\<lambda>l. Inr (res_scores result, l)))
              results) (\<lambda>sl.
     let scores = map fst sl;
         labels = map snd sl
     in ebind (tensor_cat labels) (\<lambda>labels.
        let n_p = positive_count distributed env labels
        in ebind (tensor_cat scores) (\<lambda>scores.
           let loss = binary_focal_loss scores labels gamma
           in Inr (tensor_div loss n_p))))"

definition compute_interactiveness_loss ::
  "(real list \<Rightarrow> real list \<Rightarrow> real \<Rightarrow> real) \<Rightarrow> bool \<Rightarrow> dist_env \<Rightarrow> result list
   \<Rightarrow> error + fval" where
  "compute_interactiveness_loss binary_focal_loss distributed env results =
     ebind (emap (\<lambda>result. ebind (get_key (res_binary_labels result))
                               (\<lambda>l. Inr (res_weights result, l)))
              results) (\<lambda>wl.
     let weights = map fst wl;
         labels = map snd wl
     in ebind (tensor_cat weights) (\<lambda>weights.
        ebind (tensor_cat labels) (\<lambda>labels.
        let n_p = positive_count distributed env labels;
            loss = binary_focal_loss weights labels (1 / 2)
        in Inr (tensor_div loss n_p))))"

section \<open>AttentionHead and MessageAttentionHead\<close>

text \<open>The arithmetic of the layers is over the reals. A feature tensor is a list of
  rows (or a grid of rows), a row a list of reals. The widths of the rows are fixed by
  the constructor of the module (\<open>appearance_size\<close>, \<open>spatial_size\<close>, \<open>sub_repr_size\<close>,
  \<open>representation_size\<close>), so that operations along the last dimension never meet
  rows of different widths; only the number of rows depends on the inputs.\<close>

text \<open>\<open>nn.Linear\<close>: a weight matrix with one row per output feature, and a bias.\<close>

record linear =
  weight :: "real list list"
  bias :: "real list"

definition linear_forward :: "linear \<Rightarrow> real list \<Rightarrow> real list" where
  "linear_forward l v = map2 (+) (map (\<lambda>w. sum_list (map2 (*) w v)) (weight l)) (bias l)"

definition relu :: "real \<Rightarrow> real" where
  "relu v = max 0 v"

text \<open>The three \<open>ModuleList\<close>s of \<open>AttentionHead\<close>, one entry per branch
  (\<open>cardinality\<close> entries each).\<close>

record attention_head =
  fc_1 :: "linear list"
  fc_2 :: "linear list"
  fc_3 :: "linear list"

text \<open>The element-wise product of two lists of rows, broadcast along dimension 0.\<close>

definition mul_rows :: "real list list \<Rightarrow> real list list \<Rightarrow> error + real list list" where
  "mul_rows a b =
     ebind (broadcast_shape (length a) (length b)) (\<lambda>k.
     Inr (map2 (map2 (*)) (expand k a) (expand k b)))"

text \<open>\<open>torch.stack(ts).sum(dim=0)\<close>: the element-wise sum of a non-empty list of tensors
  of one shape, for tensors of two and of three dimensions.\<close>

definition stack_sum2 :: "real list list list \<Rightarrow> error + real list list" where
  "stack_sum2 ts =
     (case ts of [] \<Rightarrow> Inl RuntimeError
      | t # rest \<Rightarrow> Inr (foldl (map2 (map2 (+))) t rest))"

definition stack_sum3 :: "real list list list list \<Rightarrow> error + real list list list" where
  "stack_sum3 ts =
     (case ts of [] \<Rightarrow> Inl RuntimeError
      | t # rest \<Rightarrow> Inr (foldl (map2 (map2 (map2 (+)))) t rest))"

text \<open>\<open>AttentionHead.forward\<close> on \<open>N\<close> appearance rows and \<open>N\<close> spatial rows.\<close>

definition attention_head_forward ::
  "attention_head \<Rightarrow> real list list \<Rightarrow> real list list \<Rightarrow> error + real list list" where
  "attention_head_forward self appearance spatial =
     ebind (emap (\<lambda>(f1, f2, f3).
                    ebind (mul_rows (map (linear_forward f1) appearance)
                                    (map (linear_forward f2) spatial)) (\<lambda>m.
                    Inr (map (linear_forward f3) (map (map relu) m))))
              (zip (fc_1 self) (zip (fc_2 self) (fc_3 self)))) (\<lambda>branches.
     ebind (stack_sum2 branches) (\<lambda>s.
     Inr (map (map relu) s)))"

text \<open>\<open>t.permute([1, 0, 2])\<close> of a grid with \<open>n\<close> columns: entry \<open>[j][i]\<close> of the result is
  entry \<open>[i][j]\<close> of \<open>t\<close>.\<close>

definition permute_102 :: "nat \<Rightarrow> 'a list list \<Rightarrow> 'a list list" where
  "permute_102 n t = map (\<lambda>j. map (\<lambda>row. row ! j) t) [0..<n]"

text \<open>\<open>spatial.shape[:2]\<close> of a grid with at least one row.\<close>

definition grid_shape :: "'a list list \<Rightarrow> nat \<times> nat" where
  "grid_shape t = (length t, case t of [] \<Rightarrow> 0 | row # rest \<Rightarrow> length row)"

text \<open>\<open>MessageAttentionHead._forward_human_nodes\<close>: \<open>appearance\<close> has one row per human
  node, \<open>spatial\<close> is the \<open>n_h \<times> n\<close> grid; the result is an \<open>n \<times> n_h\<close> grid.\<close>

definition forward_human_nodes ::
  "attention_head \<Rightarrow> real list list \<Rightarrow> real list list list \<Rightarrow> error + real list list list" where
  "forward_human_nodes self appearance spatial =
     (let (n_h, n) = grid_shape spatial
      in if length appearance \<noteq> n_h then Inl AssertionError
         else stack_sum3
                (map (\<lambda>(f1, f2, f3).
                        map (map (linear_forward f3))
                          (map (map (map relu))
                             (map2 (map2 (map2 (*)))
                                (replicate n (map (linear_forward f1) appearance))
                                (permute_102 n (map (map (linear_forward f2)) spatial)))))
                   (zip (fc_1 self) (zip (fc_2 self) (fc_3 self)))))"

text \<open>\<open>MessageAttentionHead._forward_object_nodes\<close>: \<open>appearance\<close> has one row per
  generic node; the result is an \<open>n_h \<times> n\<close> grid.\<close>

definition forward_object_nodes ::
  "attention_head \<Rightarrow> real list list \<Rightarrow> real list list list \<Rightarrow> error + real list list list" where
  "forward_object_nodes self appearance spatial =
     (let (n_h, n) = grid_shape spatial
      in if length appearance \<noteq> n then Inl AssertionError
         else stack_sum3
                (map (\<lambda>(f1, f2, f3).
                        map (map (linear_forward f3))
                          (map (map (map relu))
                             (map2 (map2 (map2 (*)))
                                (replicate n_h (map (linear_forward f1) appearance))
                                (map (map (linear_forward f2)) spatial))))
                   (zip (fc_1 self) (zip (fc_2 self) (fc_3 self)))))"

text \<open>\<open>MessageAttentionHead.forward\<close>: the method chosen by \<open>node_type\<close> at
  construction, where any other string raises ValueError.\<close>

definition message_attention_head_forward ::
  "string \<Rightarrow> attention_head \<Rightarrow> real list list \<Rightarrow> real list list list
   \<Rightarrow> error + real list list list" where
  "message_attention_head_forward node_type self appearance spatial =
     (if node_type = ''human'' then forward_human_nodes self appearance spatial
      else if node_type = ''object'' then forward_object_nodes self appearance spatial
      else Inl ValueError)"

text \<open>The value of one branch for one appearance row and one spatial row:
  \<open>fc_3(relu(fc_1(a) * fc_2(s)))\<close>.\<close>

definition branch_row :: "linear \<times> linear \<times> linear \<Rightarrow> real list \<Rightarrow> real list \<Rightarrow> real list" where
  "branch_row t a s =
     (case t of (f1, f2, f3) \<Rightarrow>
        linear_forward f3 (map relu (map2 (*) (linear_forward f1 a) (linear_forward f2 s))))"

section \<open>GraphHead\<close>

text \<open>The fields of \<open>GraphHead\<close> that the bookkeeping reads. The learned layers and the
  external geometric primitives are collected in \<open>graph_nets\<close> below.\<close>

record graph_head =
  representation_size :: nat
  num_cls :: nat
  human_idx :: nat
  object_class_to_target_class :: "nat list list"
  fg_iou_thresh :: real
  num_iter :: nat

subsection \<open>compute_prior_scores\<close>

text \<open>\<open>object_class_to_target_class\<close> is the dataset's table from an object class to its
  list of target classes. The result is \<open>torch.stack([prior_h, prior_o])\<close>, a list of two
  matrices.\<close>

definition compute_prior_scores ::
  "graph_head \<Rightarrow> nat list \<Rightarrow> nat list \<Rightarrow> real list \<Rightarrow> nat list \<Rightarrow> error + mat list" where
  "compute_prior_scores self x y scores object_class =
    (let prior_h = zeros (length x) (num_cls self);
         prior_o = prior_h
     in ebind (gather scores x) (\<lambda>sx.
        ebind (gather scores y) (\<lambda>sy.
        let s_h = map (\<lambda>s. s ^ 2) sx;
            s_o = map (\<lambda>s. s ^ 2) sy
        in ebind (gather object_class y) (\<lambda>oy.
           ebind (emap (getitem (object_class_to_target_class self)) oy) (\<lambda>target_cls_idx.
           let pair_idx = concat (map (\<lambda>(i, tar). replicate (length tar) i)
                                      (enumerate 0 target_cls_idx));
               flat_target_idx = concat target_cls_idx
           in ebind (gather s_h pair_idx) (\<lambda>vh.
              ebind (index_put prior_h (zip pair_idx (zip flat_target_idx vh))) (\<lambda>prior_h.
              ebind (gather s_o pair_idx) (\<lambda>vo.
              ebind (index_put prior_o (zip pair_idx (zip flat_target_idx vo))) (\<lambda>prior_o.
              Inr [prior_h, prior_o])))))))))"

subsection \<open>Index tensors\<close>

text \<open>\<open>torch.meshgrid(a, b)\<close> (row-major \<open>ij\<close> indexing): two \<open>|a| \<times> |b|\<close> grids, the first
  constant along each row, the second repeating \<open>b\<close> in each row.\<close>

definition meshgrid :: "nat list \<Rightarrow> nat list \<Rightarrow> nat list list \<times> nat list list" where
  "meshgrid a b = (map (\<lambda>i. replicate (length b) i) a, replicate (length a) b)"

subsection \<open>associate_with_ground_truth\<close>

text \<open>The learned layers and external primitives of \<open>GraphHead\<close>, as functions:
  \<^item> \<open>avg_pool\<close>: \<open>self.avg_pool(features['3']).flatten(start_dim=1)\<close>, one global feature
    row per image;
  \<^item> \<open>box_head\<close>: \<open>self.box_head\<close> on one pooled box feature;
  \<^item> \<open>box_iou\<close>: the intersection over union of two boxes (\<open>box_ops.box_iou\<close> is its
    matrix over two box lists);
  \<^item> \<open>pair_head\<close>: lines 566 to 608 and 615 to 625 of \<open>GraphHead.forward\<close>, the
    floating-point part of one image: spatial encodings, the \<open>num_iter\<close> rounds of message
    passing and the two attention heads that give one feature row per kept pair. Its
    arguments are the values those lines read: \<open>node_encodings\<close>, \<open>h_node_encodings\<close>,
    \<open>coords[x]\<close>, \<open>coords[y]\<close>, \<open>image_shapes[b_idx]\<close>, \<open>global_features[b_idx]\<close>,
    \<open>x_keep\<close> and \<open>y_keep\<close>. The index operations of those lines that can raise are
    written out in \<open>forward_image\<close>.\<close>

record 'f graph_nets =
  avg_pool :: "'f \<Rightarrow> real list list"
  box_head :: "real list \<Rightarrow> real list"
  box_iou :: "box \<Rightarrow> box \<Rightarrow> real"
  pair_head :: "real list list \<Rightarrow> real list list \<Rightarrow> box list \<Rightarrow> box list \<Rightarrow> nat \<times> nat
                \<Rightarrow> real list \<Rightarrow> nat list \<Rightarrow> nat list \<Rightarrow> real list list"

definition box_iou_matrix :: "(box \<Rightarrow> box \<Rightarrow> real) \<Rightarrow> box list \<Rightarrow> box list \<Rightarrow> mat" where
  "box_iou_matrix iou a b = \<lparr>ncols = length b, rows = map (\<lambda>p. map (iou p) b) a\<rparr>"

text \<open>\<open>torch.min(a, b)\<close>, the element-wise minimum of two matrices.\<close>

definition tensor_min :: "mat \<Rightarrow> mat \<Rightarrow> error + mat" where
  "tensor_min a b =
     ebind (broadcast_shape (length (rows a)) (length (rows b))) (\<lambda>r.
     ebind (broadcast_shape (ncols a) (ncols b)) (\<lambda>c.
     Inr \<lparr>ncols = c,
          rows = map2 (\<lambda>ra rb. map2 min (expand c ra) (expand c rb))
                      (expand r (rows a)) (expand r (rows b))\<rparr>))"

definition associate_with_ground_truth ::
  "graph_head \<Rightarrow> 'f graph_nets \<Rightarrow> box list \<Rightarrow> box list \<Rightarrow> target \<Rightarrow> error + mat" where
  "associate_with_ground_truth self nets boxes_h boxes_o targets =
    (let n = length boxes_h;
         labels = zeros n (num_cls self)
     in ebind (tensor_min (box_iou_matrix (box_iou nets) boxes_h (tgt_boxes_h targets))
                          (box_iou_matrix (box_iou nets) boxes_o (tgt_boxes_o targets))) (\<lambda>m.
        let xy = nonzero (map (map (\<lambda>v. fg_iou_thresh self \<le> v)) (rows m));
            x = map fst xy;
            y = map snd xy
        in ebind (gather (tgt_labels targets) y) (\<lambda>ly.
           index_put labels (zip x (zip ly (replicate (length x) 1))))))"

subsection \<open>forward\<close>

text \<open>What one image that is not skipped appends to the six output lists; the labels
  are there only when targets are given.\<close>

record image_out =
  io_box_pair_features :: mat
  io_boxes_h :: "box list"
  io_boxes_o :: "box list"
  io_object_class :: "nat list"
  io_labels :: "mat option"
  io_prior :: "mat list"

text \<open>The body of the loop of \<open>GraphHead.forward\<close> below the skip test, for the image
  \<open>b_idx\<close> with the offset \<open>counter\<close> into the batched \<open>box_features\<close>.\<close>

definition forward_image ::
  "graph_head \<Rightarrow> 'f graph_nets \<Rightarrow> (nat \<times> nat) list \<Rightarrow> real list list \<Rightarrow> real list list
   \<Rightarrow> target list option \<Rightarrow> nat \<Rightarrow> nat \<Rightarrow> box list \<Rightarrow> nat list \<Rightarrow> real list
   \<Rightarrow> error + image_out" where
  "forward_image self nets image_shapes global_features box_features targets b_idx counter
      coords labels scores =
    (let n = length coords;
         n_h = length (filter (\<lambda>l. l = human_idx self) labels)
     in if \<not> list_all (\<lambda>l. l = human_idx self) (take n_h labels) then Inl ValueError
        else
        let node_encodings = take n (drop counter box_features);
            h_node_encodings = take n_h node_encodings;
            (x, y) = meshgrid [0..<n_h] [0..<n];
            keep = nonzero (map2 (map2 (\<lambda>i j. i \<noteq> j)) x y);
            x_keep = map fst keep;
            y_keep = map snd keep
        in if length x_keep = 0 then Inl ValueError
        else
        let x = concat x;
            y = concat y
        in ebind (gather coords x) (\<lambda>coords_x.
           ebind (gather coords y) (\<lambda>coords_y.
           ebind (getitem image_shapes b_idx) (\<lambda>image_shape.
           ebind (if 0 < num_iter self
                  then ebind (gather h_node_encodings x) (\<lambda>_. gather node_encodings y)
                  else Inr []) (\<lambda>_.
           ebind (case targets of
                    None \<Rightarrow> Inr None
                  | Some ts \<Rightarrow>
                      ebind (gather coords x_keep) (\<lambda>bh.
                      ebind (gather coords y_keep) (\<lambda>bo.
                      ebind (getitem ts b_idx) (\<lambda>t.
                      ebind (associate_with_ground_truth self nets bh bo t) (\<lambda>l.
                      Inr (Some l)))))) (\<lambda>labels_out.
           ebind (gather h_node_encodings x_keep) (\<lambda>_.
           ebind (gather node_encodings y_keep) (\<lambda>_.
           ebind (getitem global_features b_idx) (\<lambda>g.
           let features = \<lparr>ncols = 2 * representation_size self,
                           rows = pair_head nets node_encodings h_node_encodings
                                    coords_x coords_y image_shape g x_keep y_keep\<rparr>
           in ebind (gather coords x_keep) (\<lambda>boxes_h.
              ebind (gather coords y_keep) (\<lambda>boxes_o.
              ebind (gather labels y_keep) (\<lambda>object_class.
              ebind (compute_prior_scores self x_keep y_keep scores labels) (\<lambda>prior.
              Inr \<lparr>io_box_pair_features = features, io_boxes_h = boxes_h,
                   io_boxes_o = boxes_o, io_object_class = object_class,
                   io_labels = labels_out, io_prior = prior\<rparr>)))))))))))))"

text \<open>The six lists \<open>GraphHead.forward\<close> returns.\<close>

record outputs =
  all_box_pair_features :: "mat list"
  all_boxes_h :: "box list list"
  all_boxes_o :: "box list list"
  all_object_class :: "nat list list"
  all_labels :: "mat list"
  all_prior :: "mat list list"

text \<open>The loop over the images of the batch, with its state: the image index, the
  \<open>counter\<close> and the six lists. An image with no human or with at most one detection
  appends empty tensors and goes on to the next image (\<open>continue\<close>); any other image
  appends the result of \<open>forward_image\<close> and advances the counter.\<close>

fun forward_loop ::
  "graph_head \<Rightarrow> 'f graph_nets \<Rightarrow> (nat \<times> nat) list \<Rightarrow> real list list \<Rightarrow> real list list
   \<Rightarrow> target list option \<Rightarrow> nat \<Rightarrow> nat \<Rightarrow> outputs
   \<Rightarrow> (box list \<times> nat list \<times> real list) list \<Rightarrow> error + outputs" where
  "forward_loop self nets image_shapes global_features box_features targets b_idx counter out []
     = Inr out"
| "forward_loop self nets image_shapes global_features box_features targets b_idx counter out
     ((coords, labels, scores) # rest) =
    (let n = length coords;
         n_h = length (filter (\<lambda>l. l = human_idx self) labels)
     in if n_h = 0 \<or> n \<le> 1
        then forward_loop self nets image_shapes global_features box_features targets
               (Suc b_idx) counter
               (out\<lparr>all_box_pair_features :=
                       all_box_pair_features out @ [zeros 0 (2 * representation_size self)],
                    all_boxes_h := all_boxes_h out @ [[]],
                    all_boxes_o := all_boxes_o out @ [[]],
                    all_object_class := all_object_class out @ [[]],
                    all_prior := all_prior out @ [[zeros 0 (num_cls self), zeros 0 (num_cls self)]],
                    all_labels := all_labels out @ [zeros 0 (num_cls self)]\<rparr>)
               rest
        else ebind (forward_image self nets image_shapes global_features box_features targets
                      b_idx counter coords labels scores) (\<lambda>r.
             forward_loop self nets image_shapes global_features box_features targets
               (Suc b_idx) (counter + n)
               (out\<lparr>all_labels := all_labels out @ (case io_labels r of None \<Rightarrow> [] | Some l \<Rightarrow> [l]),
                    all_box_pair_features := all_box_pair_features out @ [io_box_pair_features r],
                    all_boxes_h := all_boxes_h out @ [io_boxes_h r],
                    all_boxes_o := all_boxes_o out @ [io_boxes_o r],
                    all_object_class := all_object_class out @ [io_object_class r],
                    all_prior := all_prior out @ [io_prior r]\<rparr>)
               rest))"

definition forward ::
  "graph_head \<Rightarrow> 'f graph_nets \<Rightarrow> bool \<Rightarrow> 'f \<Rightarrow> (nat \<times> nat) list \<Rightarrow> real list list
   \<Rightarrow> box list list \<Rightarrow> nat list list \<Rightarrow> real list list \<Rightarrow> target list option
   \<Rightarrow> error + outputs" where
  "forward self nets training features image_shapes box_features box_coords box_labels
      box_scores targets =
    (if training \<and> targets = None then Inl AssertionError
     else
     let global_features = avg_pool nets features;
         box_features = map (box_head nets) box_features
     in forward_loop self nets image_shapes global_features box_features targets 0 0
          \<lparr>all_box_pair_features = [], all_boxes_h = [], all_boxes_o = [],
           all_object_class = [], all_labels = [], all_prior = []\<rparr>
          (zip box_coords (zip box_labels box_scores)))"

text \<open>The test of line 535 that sends an image down the skip branch.\<close>

definition skip_condition :: "graph_head \<Rightarrow> box list \<Rightarrow> nat list \<Rightarrow> bool" where
  "skip_condition self coords labels \<longleftrightarrow>
     length (filter (\<lambda>l. l = human_idx self) labels) = 0 \<or> length coords \<le> 1"

text \<open>The pairs the loop keeps for \<open>n_h\<close> humans among \<open>n\<close> detections: the cross product
  of the human indices and all indices without the diagonal, row by row.\<close>

definition kept_pairs :: "nat \<Rightarrow> nat \<Rightarrow> (nat \<times> nat) list" where
  "kept_pairs n_h n = filter (\<lambda>(i, j). i \<noteq> j) (List.product [0..<n_h] [0..<n])"

subsection \<open>The loop, image by image\<close>

text \<open>The same loop seen as a list of per-image results, for stating what each image
  contributes. \<open>empty_image\<close> is what the skip branch appends; \<open>image_results\<close> threads
  the image index and the counter exactly as \<open>forward_loop\<close> does, and \<open>append_results\<close>
  appends a list of per-image results to the six lists.\<close>

definition empty_image :: "graph_head \<Rightarrow> image_out" where
  "empty_image self =
     \<lparr>io_box_pair_features = zeros 0 (2 * representation_size self),
      io_boxes_h = [], io_boxes_o = [], io_object_class = [],
      io_labels = Some (zeros 0 (num_cls self)),
      io_prior = [zeros 0 (num_cls self), zeros 0 (num_cls self)]\<rparr>"

fun image_results ::
  "graph_head \<Rightarrow> 'f graph_nets \<Rightarrow> (nat \<times> nat) list \<Rightarrow> real list list \<Rightarrow> real list list
   \<Rightarrow> target list option \<Rightarrow> nat \<Rightarrow> nat
   \<Rightarrow> (box list \<times> nat list \<times> real list) list \<Rightarrow> error + image_out list" where
  "image_results self nets image_shapes global_features box_features targets b_idx counter []
     = Inr []"
| "image_results self nets image_shapes global_features box_features targets b_idx counter
     ((coords, labels, scores) # rest) =
    (if skip_condition self coords labels
     then ebind (image_results self nets image_shapes global_features box_features targets
                   (Suc b_idx) counter rest) (\<lambda>rs.
          Inr (empty_image self # rs))
     else ebind (forward_image self nets image_shapes global_features box_features targets
                   b_idx counter coords labels scores) (\<lambda>r.
          ebind (image_results self nets image_shapes global_features box_features targets
                   (Suc b_idx) (counter + length coords) rest) (\<lambda>rs.
          Inr (r # rs))))"

definition append_results :: "outputs \<Rightarrow> image_out list \<Rightarrow> outputs" where
  "append_results out rs =
     \<lparr>all_box_pair_features = all_box_pair_features out @ map io_box_pair_features rs,
      all_boxes_h = all_boxes_h out @ map io_boxes_h rs,
      all_boxes_o = all_boxes_o out @ map io_boxes_o rs,
      all_object_class = all_object_class out @ map io_object_class rs,
      all_labels = all_labels out
         @ concat (map (\<lambda>r. case io_labels r of None \<Rightarrow> [] | Some l \<Rightarrow> [l]) rs),
      all_prior = all_prior out @ map io_prior rs\<rparr>"

text \<open>The value of \<open>counter\<close> after the loop has gone through the images \<open>imgs\<close> from
  \<open>counter = 0\<close>: only the images that are not skipped advance it.\<close>

definition counter_after :: "graph_head \<Rightarrow> (box list \<times> nat list \<times> real list) list \<Rightarrow> nat" where
  "counter_after self imgs =
     sum_list (map (\<lambda>(coords, labels, scores).
                      if skip_condition self coords labels then 0 else length coords) imgs)"

subsection \<open>A small configuration\<close>

text \<open>Used to run the model on concrete batches. Its \<open>pair_head\<close> returns the node
  encodings it is given, so the features of an image show which rows of the batched
  box features the image has read.\<close>

definition demo_head :: graph_head where
  "demo_head = \<lparr>representation_size = 1, num_cls = 2, human_idx = 0,
     object_class_to_target_class = [[0], [1], [0, 1]], fg_iou_thresh = 1 / 2, num_iter = 1\<rparr>"

definition demo_nets :: "real list list graph_nets" where
  "demo_nets = \<lparr>avg_pool = (\<lambda>f. f), box_head = (\<lambda>r. r), box_iou = (\<lambda>a b. 0),
     pair_head = (\<lambda>node_encodings h_node_encodings coords_x coords_y image_shape g x_keep y_keep.
                    node_encodings)\<rparr>"

definition demo_box :: "nat \<Rightarrow> box" where
  "demo_box k = (real k, 0, real k + 1, 1)"

subsection \<open>Well-formed inputs\<close>

text \<open>What \<open>InteractionHead.forward\<close> hands to \<open>GraphHead.forward\<close>, as far as the index
  operations of the loop depend on it. The boxes, labels and scores of an image are
  parallel sequences; an image that is not skipped has its humans first (the invariant
  \<open>preprocess\<close> establishes and line 546 tests), and every label has an entry in the
  class table, whose target classes are below \<open>num_cls\<close>.\<close>

definition well_formed_image :: "graph_head \<Rightarrow> box list \<Rightarrow> nat list \<Rightarrow> real list \<Rightarrow> bool" where
  "well_formed_image self coords labels scores \<longleftrightarrow>
     length labels = length coords \<and> length scores = length coords
     \<and> (\<not> skip_condition self coords labels \<longrightarrow>
          list_all (\<lambda>l. l = human_idx self)
            (take (length (filter (\<lambda>l. l = human_idx self) labels)) labels)
          \<and> (\<forall>l\<in>set labels. l < length (object_class_to_target_class self)
                \<and> (\<forall>t\<in>set (object_class_to_target_class self ! l). t < num_cls self)))"

text \<open>The targets of an image: one human box, one object box and one label per ground
  truth pair, the labels below \<open>num_cls\<close>.\<close>

definition well_formed_target :: "graph_head \<Rightarrow> target \<Rightarrow> bool" where
  "well_formed_target self t \<longleftrightarrow>
     length (tgt_boxes_o t) = length (tgt_boxes_h t)
     \<and> length (tgt_labels t) = length (tgt_boxes_h t)
     \<and> (\<forall>l\<in>set (tgt_labels t). l < num_cls self)"

text \<open>The batch: one entry per image in each list, an image shape and a global feature
  for each image, one row of box features for each box of the batch (the pooling is over
  the boxes of all images), and targets, when given, for each image.\<close>

definition well_formed_batch ::
  "graph_head \<Rightarrow> 'f graph_nets \<Rightarrow> 'f \<Rightarrow> (nat \<times> nat) list \<Rightarrow> real list list
   \<Rightarrow> box list list \<Rightarrow> nat list list \<Rightarrow> real list list \<Rightarrow> target list option \<Rightarrow> bool" where
  "well_formed_batch self nets features image_shapes box_features box_coords box_labels
      box_scores targets \<longleftrightarrow>
     length box_labels = length box_coords \<and> length box_scores = length box_coords
     \<and> length box_coords \<le> length image_shapes
     \<and> length box_coords \<le> length (avg_pool nets features)
     \<and> sum_list (map length box_coords) \<le> length box_features
     \<and> (\<forall>(coords, labels, scores)\<in>set (zip box_coords (zip box_labels box_scores)).
          well_formed_image self coords labels scores)
     \<and> (case targets of
          None \<Rightarrow> True
        | Some ts \<Rightarrow> length box_coords \<le> length ts \<and> (\<forall>t\<in>set ts. well_formed_target self t))"

section \<open>Facts about the tensor helpers\<close>

lemma ebind_Inr_iff: "ebind m f = Inr r \<longleftrightarrow> (\<exists>v. m = Inr v \<and> f v = Inr r)"
  by (cases m) (simp_all add: ebind_def)

lemma emap_Inr_length: "emap f xs = Inr ys \<Longrightarrow> length ys = length xs"
  by (induction xs arbitrary: ys) (auto simp: ebind_Inr_iff)

lemma emap_Inr_nth: "emap f xs = Inr ys \<Longrightarrow> i < length xs \<Longrightarrow> f (xs ! i) = Inr (ys ! i)"
  by (induction xs arbitrary: ys i) (auto simp: ebind_Inr_iff nth_Cons split: nat.splits)

lemma emap_total: "(\<And>x. x \<in> set xs \<Longrightarrow> \<exists>v. f x = Inr v) \<Longrightarrow> \<exists>ys. emap f xs = Inr ys"
proof (induction xs)
  case Nil
  then show ?case by simp
next
  case (Cons a xs)
  from Cons.prems[of a] obtain v where v: "f a = Inr v" by auto
  from Cons.IH Cons.prems obtain ys where ys: "emap f xs = Inr ys" by auto
  from v ys show ?case by (simp add: ebind_def)
qed

lemma gather_Inr_length: "gather xs idx = Inr ys \<Longrightarrow> length ys = length idx"
  unfolding gather_def by (rule emap_Inr_length)

lemma gather_Inr_nth:
  "gather xs idx = Inr ys \<Longrightarrow> k < length idx \<Longrightarrow> idx ! k < length xs \<and> ys ! k = xs ! (idx ! k)"
  unfolding gather_def by (drule (1) emap_Inr_nth) (auto simp: getitem_def split: if_splits)

lemma gather_total: "(\<And>i. i \<in> set idx \<Longrightarrow> i < length xs) \<Longrightarrow> gather xs idx = Inr (map (\<lambda>i. xs ! i) idx)"
  unfolding gather_def by (induction idx) (auto simp: ebind_def getitem_def)


lemma rect_update:
  "rect m \<Longrightarrow> i < length (rows m) \<Longrightarrow> rect (m\<lparr>rows := (rows m)[i := (rows m ! i)[j := v]]\<rparr>)"
  unfolding rect_def by (auto simp: all_set_conv_all_nth nth_list_update)

lemma index_put_shape:
  "index_put m ws = Inr m' \<Longrightarrow> ncols m' = ncols m \<and> length (rows m') = length (rows m)"
proof (induction m ws arbitrary: m' rule: index_put.induct)
  case (1 m)
  then show ?case by simp
next
  case (2 m i j v ws)
  from "2.prems" have ok: "i < length (rows m) \<and> j < ncols m"
    and rec: "index_put (m\<lparr>rows := (rows m)[i := (rows m ! i)[j := v]]\<rparr>) ws = Inr m'"
    by (simp_all split: if_splits)
  from "2.IH"[OF ok rec] show ?case by simp
qed

lemma index_put_rect:
  "index_put m ws = Inr m' \<Longrightarrow> rect m \<Longrightarrow> rect m'"
proof (induction m ws arbitrary: m' rule: index_put.induct)
  case (1 m)
  then show ?case by simp
next
  case (2 m i j v ws)
  from "2.prems" have ok: "i < length (rows m)" "j < ncols m"
    and rec: "index_put (m\<lparr>rows := (rows m)[i := (rows m ! i)[j := v]]\<rparr>) ws = Inr m'"
    by (simp_all split: if_splits)
  have "rect (m\<lparr>rows := (rows m)[i := (rows m ! i)[j := v]]\<rparr>)"
    using "2.prems"(2) ok by (simp add: rect_update)
  with "2.IH"[OF _ rec] ok show ?case by simp
qed

lemma index_put_nth:
  "index_put m ws = Inr m' \<Longrightarrow> rect m \<Longrightarrow> (\<And>i j v. (i, j, v) \<in> set ws \<Longrightarrow> v = g i) \<Longrightarrow>
   i < length (rows m) \<Longrightarrow> c < ncols m \<Longrightarrow>
   rows m' ! i ! c = (if (i, c) \<in> (\<lambda>(i, j, v). (i, j)) ` set ws then g i else rows m ! i ! c)"
proof (induction m ws arbitrary: m' rule: index_put.induct)
  case (1 m)
  then show ?case by simp
next
  case (2 m i' j v ws)
  let ?m1 = "m\<lparr>rows := (rows m)[i' := (rows m ! i')[j := v]]\<rparr>"
  from "2.prems"(1) have ok: "i' < length (rows m)" "j < ncols m"
    and rec: "index_put ?m1 ws = Inr m'"
    by (simp_all split: if_splits)
  have r1: "rect ?m1"
    using "2.prems"(2) ok by (simp add: rect_update)
  have v: "v = g i'" using "2.prems"(3)[of i' j v] by simp
  have len: "length (rows m ! i') = ncols m"
    using "2.prems"(2) ok unfolding rect_def by simp
  have IH: "rows m' ! i ! c = (if (i, c) \<in> (\<lambda>(i, j, v). (i, j)) ` set ws then g i else rows ?m1 ! i ! c)"
  proof (rule "2.IH"[OF _ rec r1])
    show "i' < length (rows m) \<and> j < ncols m" using ok by simp
    show "\<And>i j v. (i, j, v) \<in> set ws \<Longrightarrow> v = g i" using "2.prems"(3) by auto
    show "i < length (rows ?m1)" using "2.prems"(4) by simp
    show "c < ncols ?m1" using "2.prems"(5) by simp
  qed
  have "rows ?m1 ! i ! c = (if i = i' \<and> c = j then g i else rows m ! i ! c)"
    using ok "2.prems"(4,5) len v by (auto simp: nth_list_update)
  with IH show ?case by (auto simp: image_iff)
qed

lemma index_put_total:
  "(\<And>i j v. (i, j, v) \<in> set ws \<Longrightarrow> i < length (rows m) \<and> j < ncols m) \<Longrightarrow>
   \<exists>m'. index_put m ws = Inr m'"
proof (induction m ws rule: index_put.induct)
  case (1 m)
  then show ?case by simp
next
  case (2 m i j v ws)
  have ok: "i < length (rows m) \<and> j < ncols m" using "2.prems"[of i j v] by simp
  have "\<exists>m'. index_put (m\<lparr>rows := (rows m)[i := (rows m ! i)[j := v]]\<rparr>) ws = Inr m'"
  proof (rule "2.IH"[OF ok])
    fix i' j' v' assume "(i', j', v') \<in> set ws"
    then show "i' < length (rows (m\<lparr>rows := (rows m)[i := (rows m ! i)[j := v]]\<rparr>))
       \<and> j' < ncols (m\<lparr>rows := (rows m)[i := (rows m ! i)[j := v]]\<rparr>)"
      using "2.prems"[of i' j' v'] by simp
  qed
  with ok show ?case by simp
qed

lemma rect_zeros: "rect (zeros m k)"
  by (simp add: rect_def zeros_def)

lemma zeros_nth: "i < m \<Longrightarrow> c < k \<Longrightarrow> rows (zeros m k) ! i ! c = 0"
  by (simp add: zeros_def)

section \<open>Postprocessing\<close>

lemma enumerate_upt: "enumerate 0 xs = map (\<lambda>i. (i, xs ! i)) [0..<length xs]"
  unfolding enumerate_eq_zip by (rule nth_equalityI) simp_all

lemma nonzero_rows:
  "nonzero m = concat (map (\<lambda>i. map (Pair i) (filter (\<lambda>j. m ! i ! j) [0..<length (m ! i)]))
                           [0..<length m])"
proof -
  have row: "map (\<lambda>(j, b). (i, j)) (filter snd (map (\<lambda>j. (j, r ! j)) [0..<length r]))
      = map (Pair i) (filter (\<lambda>j. r ! j) [0..<length r])" for i and r :: "bool list"
    by (simp add: filter_map comp_def)
  show ?thesis
    unfolding nonzero_def enumerate_upt[of m]
    by (simp add: comp_def enumerate_upt row)
qed

lemma set_nonzero:
  "set (nonzero m) = {(i, j). i < length m \<and> j < length (m ! i) \<and> m ! i ! j}"
  unfolding nonzero_rows by auto




lemma expand_same: "length xs = k \<Longrightarrow> expand k xs = xs"
  by (simp add: expand_def)













section \<open>Loss normalisation\<close>

lemma emap_get_key:
  assumes "map sel results = map Some ls"
  shows "emap (\<lambda>result. ebind (get_key (sel result)) (\<lambda>l. Inr (f result, l))) results
       = Inr (zip (map f results) ls)"
  using assms
proof (induction results arbitrary: ls)
  case Nil
  then show ?case by simp
next
  case (Cons r results)
  then obtain l ls' where ls: "ls = l # ls'" "sel r = Some l" "map sel results = map Some ls'"
    by (cases ls) auto
  from Cons.IH[OF ls(3)] ls show ?case by (simp add: ebind_def get_key_def)
qed

lemma classification_loss_value:
  assumes "results \<noteq> []" and lab: "map res_labels results = map Some ls"
  shows "compute_interaction_classification_loss focal gamma distributed env results
       = Inr (tensor_div (focal (concat (map res_scores results)) (concat ls) gamma)
                (positive_count distributed env (concat ls)))"
proof -
  have l: "length ls = length results" using lab by (metis length_map)
  then have ne: "ls \<noteq> []" using assms(1) by auto
  show ?thesis
    unfolding compute_interaction_classification_loss_def emap_get_key[OF lab] Let_def
    using l ne assms(1) by (simp add: ebind_def tensor_cat_def)
qed

lemma interactiveness_loss_value:
  assumes "results \<noteq> []" and lab: "map res_binary_labels results = map Some bs"
  shows "compute_interactiveness_loss focal distributed env results
       = Inr (tensor_div (focal (concat (map res_weights results)) (concat bs) (1 / 2))
                (positive_count distributed env (concat bs)))"
proof -
  have l: "length bs = length results" using lab by (metis length_map)
  then have ne: "bs \<noteq> []" using assms(1) by auto
  show ?thesis
    unfolding compute_interactiveness_loss_def emap_get_key[OF lab] Let_def
    using l ne assms(1) by (simp add: ebind_def tensor_cat_def)
qed

lemma positive_count_local:
  "positive_count False env labels = real (length (filter (\<lambda>v. v \<noteq> 0) labels))"
  by (simp add: positive_count_def)

lemma positive_count_distributed:
  assumes "i < length ps" and "ps ! i = length (filter (\<lambda>v. v \<noteq> 0) labels)"
  shows "positive_count True (worker_env ps i) labels = real (sum_list ps) / real (length ps)"
  using assms by (simp add: positive_count_def worker_env_def Let_def list_update_same_conv[THEN iffD2])

text \<open>
  Claim C6. For a non-empty batch of results with labels: in local mode, when the count
  \<open>p\<close> of positive labels of the batch is not zero, the classification loss is the
  sum-reduced focal loss divided by \<open>p\<close>, and likewise the interactiveness loss with the
  count \<open>q\<close> of positive binary labels. In distributed mode among \<open>length ps\<close> workers,
  where worker \<open>j\<close> contributes \<open>ps ! j\<close> positives and the sum is not zero, worker \<open>i\<close>
  divides its sum-reduced focal loss by \<open>sum_list ps / length ps\<close>, the same divisor for
  every worker.
\<close>

theorem loss_is_focal_sum_over_positive_count:
  assumes ne: "results \<noteq> []"
    and lab: "map res_labels results = map Some ls"
    and bin: "map res_binary_labels results = map Some bs"
    and p: "p = length (filter (\<lambda>v. v \<noteq> 0) (concat ls))"
    and q: "q = length (filter (\<lambda>v. v \<noteq> 0) (concat bs))"
  shows "(p \<noteq> 0 \<longrightarrow>
            compute_interaction_classification_loss focal gamma False env results
            = Inr (Finite (focal (concat (map res_scores results)) (concat ls) gamma / real p)))
     \<and> (q \<noteq> 0 \<longrightarrow>
            compute_interactiveness_loss focal False env results
            = Inr (Finite (focal (concat (map res_weights results)) (concat bs) (1 / 2) / real q)))
     \<and> (i < length ps \<and> ps ! i = p \<and> sum_list ps \<noteq> 0 \<longrightarrow>
            compute_interaction_classification_loss focal gamma True (worker_env ps i) results
            = Inr (Finite (focal (concat (map res_scores results)) (concat ls) gamma
                           / (real (sum_list ps) / real (length ps)))))
     \<and> (i < length qs \<and> qs ! i = q \<and> sum_list qs \<noteq> 0 \<longrightarrow>
            compute_interactiveness_loss focal True (worker_env qs i) results
            = Inr (Finite (focal (concat (map res_weights results)) (concat bs) (1 / 2)
                           / (real (sum_list qs) / real (length qs)))))"
proof (intro conjI impI)
  assume "p \<noteq> 0"
  then show "compute_interaction_classification_loss focal gamma False env results
            = Inr (Finite (focal (concat (map res_scores results)) (concat ls) gamma / real p))"
    unfolding classification_loss_value[OF ne lab] positive_count_local p
    by (simp add: tensor_div_def)
next
  assume "q \<noteq> 0"
  then show "compute_interactiveness_loss focal False env results
            = Inr (Finite (focal (concat (map res_weights results)) (concat bs) (1 / 2) / real q))"
    unfolding interactiveness_loss_value[OF ne bin] positive_count_local q
    by (simp add: tensor_div_def)
next
  assume a: "i < length ps \<and> ps ! i = p \<and> sum_list ps \<noteq> 0"
  then have "positive_count True (worker_env ps i) (concat ls)
      = real (sum_list ps) / real (length ps)"
    using positive_count_distributed[of i ps "concat ls"] p by simp
  moreover have "real (sum_list ps) / real (length ps) \<noteq> 0" using a by auto
  ultimately show "compute_interaction_classification_loss focal gamma True (worker_env ps i) results
            = Inr (Finite (focal (concat (map res_scores results)) (concat ls) gamma
                           / (real (sum_list ps) / real (length ps))))"
    unfolding classification_loss_value[OF ne lab] by (simp add: tensor_div_def)
next
  assume a: "i < length qs \<and> qs ! i = q \<and> sum_list qs \<noteq> 0"
  then have "positive_count True (worker_env qs i) (concat bs)
      = real (sum_list qs) / real (length qs)"
    using positive_count_distributed[of i qs "concat bs"] q by simp
  moreover have "real (sum_list qs) / real (length qs) \<noteq> 0" using a by auto
  ultimately show "compute_interactiveness_loss focal True (worker_env qs i) results
            = Inr (Finite (focal (concat (map res_weights results)) (concat bs) (1 / 2)
                           / (real (sum_list qs) / real (length qs))))"
    unfolding interactiveness_loss_value[OF ne bin] by (simp add: tensor_div_def)
qed


theorem loss_is_focal_sum_over_positive_count_witness:
  "compute_interaction_classification_loss (\<lambda>x y g. sum_list x) (1 / 2) False (worker_env [1, 3] 0)
       [\<lparr>res_boxes_h = [], res_boxes_o = [], res_index = [0, 0], res_prediction = [0, 1],
         res_scores = [1 / 2, 1 / 4], res_object = [1], res_prior = [], res_weights = [1 / 2],
         res_labels = Some [1, 0], res_binary_labels = Some [1]\<rparr>]
     = Inr (Finite (3 / 4))
   \<and> compute_interaction_classification_loss (\<lambda>x y g. sum_list x) (1 / 2) True (worker_env [1, 3] 0)
       [\<lparr>res_boxes_h = [], res_boxes_o = [], res_index = [0, 0], res_prediction = [0, 1],
         res_scores = [1 / 2, 1 / 4], res_object = [1], res_prior = [], res_weights = [1 / 2],
         res_labels = Some [1, 0], res_binary_labels = Some [1]\<rparr>]
     = Inr (Finite (3 / 8))
   \<and> compute_interactiveness_loss (\<lambda>x y g. sum_list x) True (worker_env [1, 3] 0)
       [\<lparr>res_boxes_h = [], res_boxes_o = [], res_index = [0, 0], res_prediction = [0, 1],
         res_scores = [1 / 2, 1 / 4], res_object = [1], res_prior = [], res_weights = [1 / 2],
         res_labels = Some [1, 0], res_binary_labels = Some [1]\<rparr>]
     = Inr (Finite (1 / 4))"
proof -
  let ?r = "\<lparr>res_boxes_h = [], res_boxes_o = [], res_index = [0, 0], res_prediction = [0, 1],
         res_scores = [1 / 2, 1 / 4], res_object = [1], res_prior = [], res_weights = [1 / 2],
         res_labels = Some [1, 0], res_binary_labels = Some [1]\<rparr>"
  have ne: "[?r] \<noteq> []" by simp
  have lab: "map res_labels [?r] = map Some [[1, 0]]" by simp
  have bin: "map res_binary_labels [?r] = map Some [[1]]" by simp
  have p: "1 = length (filter (\<lambda>v. v \<noteq> 0) (concat [[1, 0 :: real]]))" by simp
  have q: "1 = length (filter (\<lambda>v. v \<noteq> 0) (concat [[1 :: real]]))" by simp
  from loss_is_focal_sum_over_positive_count[OF ne lab bin p q,
      of "\<lambda>x y g. sum_list x" "1 / 2" "worker_env [1, 3] 0" 0 "[1, 3]" "[1, 3]"]
  show ?thesis by simp
qed

text \<open>
  Claim C7, as the code has it. Neither loss tests its divisor. For a non-empty batch of
  results with labels, each loss on its own: when the count of positive labels it divides
  by is zero (for the classification loss the labels, for the interactiveness loss the
  binary labels; in distributed mode the count summed over all workers), the loss raises
  nothing and returns the sum-reduced focal loss divided by zero, which is \<open>+inf\<close> when
  the focal sum is positive, \<open>-inf\<close> when it is negative and NaN when it is zero: never
  a finite number, never an error.
\<close>

theorem zero_positives_give_non_finite_loss:
  assumes ne: "results \<noteq> []"
    and F: "F = focal (concat (map res_scores results)) (concat ls) gamma"
    and G: "G = focal (concat (map res_weights results)) (concat bs) (1 / 2)"
  shows "(map res_labels results = map Some ls
            \<and> length (filter (\<lambda>v. v \<noteq> 0) (concat ls)) = 0 \<longrightarrow>
          compute_interaction_classification_loss focal gamma False env results
          = Inr (if 0 < F then PosInf else if F < 0 then NegInf else NaN))
     \<and> (map res_binary_labels results = map Some bs
            \<and> length (filter (\<lambda>v. v \<noteq> 0) (concat bs)) = 0 \<longrightarrow>
          compute_interactiveness_loss focal False env results
          = Inr (if 0 < G then PosInf else if G < 0 then NegInf else NaN))
     \<and> (map res_labels results = map Some ls
            \<and> i < length ps \<and> ps ! i = length (filter (\<lambda>v. v \<noteq> 0) (concat ls))
            \<and> sum_list ps = 0 \<longrightarrow>
          compute_interaction_classification_loss focal gamma True (worker_env ps i) results
          = Inr (if 0 < F then PosInf else if F < 0 then NegInf else NaN))
     \<and> (map res_binary_labels results = map Some bs
            \<and> j < length qs \<and> qs ! j = length (filter (\<lambda>v. v \<noteq> 0) (concat bs))
            \<and> sum_list qs = 0 \<longrightarrow>
          compute_interactiveness_loss focal True (worker_env qs j) results
          = Inr (if 0 < G then PosInf else if G < 0 then NegInf else NaN))"
proof (intro conjI impI)
  assume a: "map res_labels results = map Some ls
      \<and> length (filter (\<lambda>v. v \<noteq> 0) (concat ls)) = 0"
  then have lab: "map res_labels results = map Some ls" by simp
  have "positive_count False env (concat ls) = 0"
    using a by (simp add: positive_count_local)
  then show "compute_interaction_classification_loss focal gamma False env results
          = Inr (if 0 < F then PosInf else if F < 0 then NegInf else NaN)"
    unfolding classification_loss_value[OF ne lab] F by (simp add: tensor_div_def)
next
  assume a: "map res_binary_labels results = map Some bs
      \<and> length (filter (\<lambda>v. v \<noteq> 0) (concat bs)) = 0"
  then have bin: "map res_binary_labels results = map Some bs" by simp
  have "positive_count False env (concat bs) = 0"
    using a by (simp add: positive_count_local)
  then show "compute_interactiveness_loss focal False env results
          = Inr (if 0 < G then PosInf else if G < 0 then NegInf else NaN)"
    unfolding interactiveness_loss_value[OF ne bin] G by (simp add: tensor_div_def)
next
  assume a: "map res_labels results = map Some ls
      \<and> i < length ps \<and> ps ! i = length (filter (\<lambda>v. v \<noteq> 0) (concat ls))
      \<and> sum_list ps = 0"
  then have lab: "map res_labels results = map Some ls" by simp
  have "positive_count True (worker_env ps i) (concat ls) = 0"
    using positive_count_distributed[of i ps "concat ls"] a by simp
  then show "compute_interaction_classification_loss focal gamma True (worker_env ps i) results
          = Inr (if 0 < F then PosInf else if F < 0 then NegInf else NaN)"
    unfolding classification_loss_value[OF ne lab] F by (simp add: tensor_div_def)
next
  assume a: "map res_binary_labels results = map Some bs
      \<and> j < length qs \<and> qs ! j = length (filter (\<lambda>v. v \<noteq> 0) (concat bs))
      \<and> sum_list qs = 0"
  then have bin: "map res_binary_labels results = map Some bs" by simp
  have "positive_count True (worker_env qs j) (concat bs) = 0"
    using positive_count_distributed[of j qs "concat bs"] a by simp
  then show "compute_interactiveness_loss focal True (worker_env qs j) results
          = Inr (if 0 < G then PosInf else if G < 0 then NegInf else NaN)"
    unfolding interactiveness_loss_value[OF ne bin] G by (simp add: tensor_div_def)
qed

theorem zero_positives_give_non_finite_loss_witness:
  "compute_interaction_classification_loss (\<lambda>x y g. sum_list x) (1 / 2) False (worker_env [0, 0] 0)
       [\<lparr>res_boxes_h = [], res_boxes_o = [], res_index = [0, 0], res_prediction = [0, 1],
         res_scores = [1 / 2, 1 / 4], res_object = [1], res_prior = [], res_weights = [0],
         res_labels = Some [0, 0], res_binary_labels = Some [0]\<rparr>] = Inr PosInf
   \<and> compute_interactiveness_loss (\<lambda>x y g. sum_list x) False (worker_env [0, 0] 0)
       [\<lparr>res_boxes_h = [], res_boxes_o = [], res_index = [0, 0], res_prediction = [0, 1],
         res_scores = [1 / 2, 1 / 4], res_object = [1], res_prior = [], res_weights = [0],
         res_labels = Some [0, 0], res_binary_labels = Some [0]\<rparr>] = Inr NaN
   \<and> compute_interaction_classification_loss (\<lambda>x y g. sum_list x) (1 / 2) True (worker_env [0, 0] 0)
       [\<lparr>res_boxes_h = [], res_boxes_o = [], res_index = [0, 0], res_prediction = [0, 1],
         res_scores = [1 / 2, 1 / 4], res_object = [1], res_prior = [], res_weights = [0],
         res_labels = Some [0, 0], res_binary_labels = Some [0]\<rparr>] = Inr PosInf
   \<and> compute_interactiveness_loss (\<lambda>x y g. sum_list x) True (worker_env [0, 0] 1)
       [\<lparr>res_boxes_h = [], res_boxes_o = [], res_index = [0, 0], res_prediction = [0, 1],
         res_scores = [1 / 2, 1 / 4], res_object = [1], res_prior = [], res_weights = [0],
         res_labels = Some [0, 0], res_binary_labels = Some [0]\<rparr>] = Inr NaN"
proof -
  let ?r = "\<lparr>res_boxes_h = [], res_boxes_o = [], res_index = [0, 0], res_prediction = [0, 1],
         res_scores = [1 / 2, 1 / 4], res_object = [1], res_prior = [], res_weights = [0],
         res_labels = Some [0, 0], res_binary_labels = Some [0]\<rparr>"
  have ne: "[?r] \<noteq> []" by simp
  from zero_positives_give_non_finite_loss[OF ne refl refl,
      where focal = "\<lambda>x y g. sum_list x" and ls = "[[0, 0]]" and gamma = "1 / 2"
        and env = "worker_env [0, 0] 0" and bs = "[[0]]" and i = 0 and ps = "[0, 0]"
        and j = 1 and qs = "[0, 0]"]
  show ?thesis by simp
qed

text \<open>
  The claim as stated says that a batch with no positive label makes the loss computation
  raise a distinguishable error. For one result with the labels \<open>[0, 0]\<close> and a focal loss
  sum of 1, both in local and in distributed mode the classification loss is returned, and
  it is \<open>+inf\<close>.
\<close>

theorem zero_positives_raise_nothing:
  "compute_interaction_classification_loss (\<lambda>x y g. 1) (1 / 2) False (worker_env [0, 0] 0)
       [\<lparr>res_boxes_h = [], res_boxes_o = [], res_index = [0, 0], res_prediction = [0, 1],
         res_scores = [1 / 2, 1 / 4], res_object = [1], res_prior = [], res_weights = [1 / 2],
         res_labels = Some [0, 0], res_binary_labels = Some [0]\<rparr>] = Inr PosInf
   \<and> compute_interaction_classification_loss (\<lambda>x y g. 1) (1 / 2) True (worker_env [0, 0] 0)
       [\<lparr>res_boxes_h = [], res_boxes_o = [], res_index = [0, 0], res_prediction = [0, 1],
         res_scores = [1 / 2, 1 / 4], res_object = [1], res_prior = [], res_weights = [1 / 2],
         res_labels = Some [0, 0], res_binary_labels = Some [0]\<rparr>] = Inr PosInf"
  by (simp add: compute_interaction_classification_loss_def ebind_def get_key_def tensor_cat_def
      positive_count_def worker_env_def tensor_div_def Let_def)

section \<open>Prior scores\<close>

lemma zip_pair_flat:
  "zip (concat (map (\<lambda>(i, tar). replicate (length tar) i) es)) (concat (map snd es))
   = concat (map (\<lambda>(i, tar). map (Pair i) tar) es)"
proof (induction es)
  case Nil
  then show ?case by simp
next
  case (Cons e es)
  obtain i tar where e: "e = (i, tar)" by (cases e)
  have "zip (replicate (length tar) i) tar = map (Pair i) tar"
    by (induction tar) simp_all
  with Cons e show ?case by (simp add: zip_append)
qed

lemma pair_set:
  "set (zip (concat (map (\<lambda>(i, tar). replicate (length tar) i) (enumerate 0 tci))) (concat tci))
   = {(i, c). i < length tci \<and> c \<in> set (tci ! i)}"
proof -
  have "concat tci = concat (map snd (enumerate 0 tci))" by simp
  then have "set (zip (concat (map (\<lambda>(i, tar). replicate (length tar) i) (enumerate 0 tci))) (concat tci))
    = set (concat (map (\<lambda>(i, tar). map (Pair i) tar) (enumerate 0 tci)))"
    using zip_pair_flat[of "enumerate 0 tci"] by simp
  also have "\<dots> = {(i, c). i < length tci \<and> c \<in> set (tci ! i)}" (is "?L = ?R")
  proof (intro equalityI subsetI)
    fix p assume "p \<in> ?L"
    then obtain i tar where "(i, tar) \<in> set (enumerate 0 tci)" "p \<in> set (map (Pair i) tar)"
      by auto
    then show "p \<in> ?R" by (auto simp: in_set_enumerate_eq)
  next
    fix p assume "p \<in> ?R"
    then obtain i c where p: "p = (i, c)" "i < length tci" "c \<in> set (tci ! i)" by auto
    then have "(i, tci ! i) \<in> set (enumerate 0 tci)" by (simp add: in_set_enumerate_eq)
    moreover have "p \<in> set (map (Pair i) (tci ! i))" using p by simp
    ultimately show "p \<in> ?L" by (auto intro!: bexI[of _ "(i, tci ! i)"])
  qed
  finally show ?thesis .
qed


lemma length_pair_idx:
  "length (concat (map (\<lambda>(i, tar). replicate (length tar) i) es)) = length (concat (map snd es))"
  by (induction es) (auto simp: case_prod_beta)

lemma zip3_proj:
  "length js = length is \<Longrightarrow> length vs = length is \<Longrightarrow>
   (\<lambda>(i, j, v). (i, j)) ` set (zip is (zip js vs)) = set (zip is js)"
proof -
  assume a: "length js = length is" "length vs = length is"
  then have "length is = length js" "length js = length vs" by simp_all
  then have "map (\<lambda>(i, j, v). (i, j)) (zip is (zip js vs)) = zip is js"
    by (induction "is" js vs rule: list_induct3) simp_all
  then have "set (map (\<lambda>(i, j, v). (i, j)) (zip is (zip js vs))) = set (zip is js)" by simp
  then show ?thesis by simp
qed

lemma scatter_rows:
  assumes put: "index_put (zeros M K) (zip pidx (zip flat vals)) = Inr p"
    and pidx: "pidx = concat (map (\<lambda>(i, tar). replicate (length tar) i) (enumerate 0 tci))"
    and flat: "flat = concat tci"
    and vals: "gather s pidx = Inr vals"
    and i: "i < M" and c: "c < K"
  shows "rows p ! i ! c = (if i < length tci \<and> c \<in> set (tci ! i) then s ! i else 0)"
proof -
  have lv: "length vals = length pidx" using vals by (rule gather_Inr_length)
  have lf: "length flat = length pidx"
    using length_pair_idx[of "enumerate 0 tci"] pidx flat by simp
  have g: "\<And>i j v. (i, j, v) \<in> set (zip pidx (zip flat vals)) \<Longrightarrow> v = s ! i"
  proof -
    fix i j v assume "(i, j, v) \<in> set (zip pidx (zip flat vals))"
    then obtain k where k: "k < length pidx" "pidx ! k = i" "vals ! k = v"
      using lv lf by (auto simp: in_set_zip)
    with gather_Inr_nth[OF vals k(1)] show "v = s ! i" by simp
  qed
  have "rows p ! i ! c =
      (if (i, c) \<in> (\<lambda>(i, j, v). (i, j)) ` set (zip pidx (zip flat vals)) then s ! i
       else rows (zeros M K) ! i ! c)"
    by (rule index_put_nth[OF put rect_zeros g]) (simp_all add: zeros_def i c)
  also have "(\<lambda>(i, j, v). (i, j)) ` set (zip pidx (zip flat vals)) = set (zip pidx flat)"
    using lf lv by (rule zip3_proj)
  also have "set (zip pidx flat) = {(i, c). i < length tci \<and> c \<in> set (tci ! i)}"
    unfolding pidx flat by (rule pair_set)
  finally show ?thesis using i c by (simp add: zeros_nth)
qed

lemma compute_prior_scores_Inr:
  assumes res: "compute_prior_scores self x y scores oc = Inr prior"
    and len: "length x = length y"
  shows "\<exists>ph po. prior = [ph, po]
     \<and> ncols ph = (num_cls self) \<and> length (rows ph) = length x \<and> ncols po = (num_cls self) \<and> length (rows po) = length x
     \<and> (\<forall>i<length x. \<forall>c<(num_cls self).
          rows ph ! i ! c = (if c \<in> set ((object_class_to_target_class self) ! (oc ! (y ! i))) then (scores ! (x ! i)) ^ 2 else 0)
        \<and> rows po ! i ! c = (if c \<in> set ((object_class_to_target_class self) ! (oc ! (y ! i))) then (scores ! (y ! i)) ^ 2 else 0))"
proof -
  from res obtain sx sy oy tci vh ph vo po where
    sx: "gather scores x = Inr sx" and sy: "gather scores y = Inr sy"
    and oy: "gather oc y = Inr oy" and tci: "emap (getitem (object_class_to_target_class self)) oy = Inr tci"
    and vh: "gather (map (\<lambda>s. s ^ 2) sx)
        (concat (map (\<lambda>(i, tar). replicate (length tar) i) (enumerate 0 tci))) = Inr vh"
    and ph: "index_put (zeros (length x) (num_cls self))
        (zip (concat (map (\<lambda>(i, tar). replicate (length tar) i) (enumerate 0 tci)))
             (zip (concat tci) vh)) = Inr ph"
    and vo: "gather (map (\<lambda>s. s ^ 2) sy)
        (concat (map (\<lambda>(i, tar). replicate (length tar) i) (enumerate 0 tci))) = Inr vo"
    and po: "index_put (zeros (length x) (num_cls self))
        (zip (concat (map (\<lambda>(i, tar). replicate (length tar) i) (enumerate 0 tci)))
             (zip (concat tci) vo)) = Inr po"
    and prior: "prior = [ph, po]"
    unfolding compute_prior_scores_def Let_def ebind_Inr_iff by blast
  have ltci: "length tci = length y"
    using emap_Inr_length[OF tci] gather_Inr_length[OF oy] by simp
  have lsx: "length sx = length x" using sx by (rule gather_Inr_length)
  have lsy: "length sy = length y" using sy by (rule gather_Inr_length)
  have shape_h: "ncols ph = (num_cls self) \<and> length (rows ph) = length x"
    using index_put_shape[OF ph] by (simp add: zeros_def)
  have shape_o: "ncols po = (num_cls self) \<and> length (rows po) = length x"
    using index_put_shape[OF po] by (simp add: zeros_def)
  have body: "rows ph ! i ! c = (if c \<in> set ((object_class_to_target_class self) ! (oc ! (y ! i))) then (scores ! (x ! i)) ^ 2 else 0)
        \<and> rows po ! i ! c = (if c \<in> set ((object_class_to_target_class self) ! (oc ! (y ! i))) then (scores ! (y ! i)) ^ 2 else 0)"
    if i: "i < length x" and c: "c < (num_cls self)" for i c
  proof -
    have iy: "i < length y" using i len by simp
    have "oy ! i = oc ! (y ! i)" using gather_Inr_nth[OF oy iy] by simp
    moreover have "getitem (object_class_to_target_class self) (oy ! i) = Inr (tci ! i)"
      using emap_Inr_nth[OF tci, of i] iy gather_Inr_length[OF oy] by simp
    ultimately have t: "tci ! i = (object_class_to_target_class self) ! (oc ! (y ! i))"
      by (auto simp: getitem_def split: if_splits)
    have h: "map (\<lambda>s. s ^ 2) sx ! i = (scores ! (x ! i)) ^ 2"
      using gather_Inr_nth[OF sx i] i lsx by simp
    have o: "map (\<lambda>s. s ^ 2) sy ! i = (scores ! (y ! i)) ^ 2"
      using gather_Inr_nth[OF sy iy] iy lsy by simp
    have "rows ph ! i ! c = (if i < length tci \<and> c \<in> set (tci ! i) then map (\<lambda>s. s ^ 2) sx ! i else 0)"
      by (rule scatter_rows[OF ph refl refl vh i c])
    moreover have "rows po ! i ! c = (if i < length tci \<and> c \<in> set (tci ! i) then map (\<lambda>s. s ^ 2) sy ! i else 0)"
      by (rule scatter_rows[OF po refl refl vo i c])
    ultimately show ?thesis using t h o iy ltci by simp
  qed
  show ?thesis using prior shape_h shape_o body by blast
qed


lemma compute_prior_scores_total:
  assumes len: "length x = length y"
    and xs: "\<forall>i\<in>set x. i < length scores"
    and ys: "\<forall>j\<in>set y. j < length scores \<and> j < length oc \<and> oc ! j < length (object_class_to_target_class self)
               \<and> (\<forall>t\<in>set ((object_class_to_target_class self) ! (oc ! j)). t < (num_cls self))"
  shows "\<exists>prior. compute_prior_scores self x y scores oc = Inr prior"
proof -
  define tci where "tci = map (\<lambda>j. (object_class_to_target_class self) ! (oc ! j)) y"
  define pidx where
    "pidx = concat (map (\<lambda>(i, tar). replicate (length tar) i) (enumerate 0 tci))"
  define s_h where "s_h = map (\<lambda>s. s ^ 2) (map ((!) scores) x)"
  define s_o where "s_o = map (\<lambda>s. s ^ 2) (map ((!) scores) y)"
  have g1: "gather scores x = Inr (map ((!) scores) x)"
    by (rule gather_total) (use xs in simp)
  have g2: "gather scores y = Inr (map ((!) scores) y)"
    by (rule gather_total) (use ys in simp)
  have g3: "gather oc y = Inr (map ((!) oc) y)"
    by (rule gather_total) (use ys in simp)
  have "gather (object_class_to_target_class self) (map ((!) oc) y) = Inr (map ((!) (object_class_to_target_class self)) (map ((!) oc) y))"
    by (rule gather_total) (use ys in auto)
  then have g4: "emap (getitem (object_class_to_target_class self)) (map ((!) oc) y) = Inr tci"
    by (simp add: gather_def tci_def comp_def)
  have pidx_lt: "i < length y" if "i \<in> set pidx" for i
    using that unfolding pidx_def tci_def by (auto simp: in_set_enumerate_eq)
  have flat_lt: "t < (num_cls self)" if "t \<in> set (concat tci)" for t
    using that ys unfolding tci_def by auto
  have g5: "gather s_h pidx = Inr (map ((!) s_h) pidx)"
    by (rule gather_total) (use pidx_lt len in \<open>simp add: s_h_def\<close>)
  have g6: "gather s_o pidx = Inr (map ((!) s_o) pidx)"
    by (rule gather_total) (use pidx_lt in \<open>simp add: s_o_def\<close>)
  have inr: "\<exists>p. index_put (zeros (length x) (num_cls self)) (zip pidx (zip (concat tci) vals)) = Inr p" for vals
  proof (rule index_put_total)
    fix i j v assume "(i, j, v) \<in> set (zip pidx (zip (concat tci) vals))"
    then have "i \<in> set pidx" and "(j, v) \<in> set (zip (concat tci) vals)"
      by (auto dest: set_zip_leftD set_zip_rightD)
    then have "i \<in> set pidx" and "j \<in> set (concat tci)"
      by (auto dest: set_zip_leftD simp del: set_concat)
    then show "i < length (rows (zeros (length x) (num_cls self))) \<and> j < ncols (zeros (length x) (num_cls self))"
      using pidx_lt[of i] flat_lt[of j] len by (simp add: zeros_def)
  qed
  from inr obtain p1 where p1:
    "index_put (zeros (length x) (num_cls self)) (zip pidx (zip (concat tci) (map ((!) s_h) pidx))) = Inr p1"
    by blast
  from inr obtain p2 where p2:
    "index_put (zeros (length x) (num_cls self)) (zip pidx (zip (concat tci) (map ((!) s_o) pidx))) = Inr p2"
    by blast
  have "compute_prior_scores self x y scores oc = Inr [p1, p2]"
    by (simp only: compute_prior_scores_def Let_def ebind_def sum.case g1 g2 g3 g4
        g5[unfolded pidx_def s_h_def] g6[unfolded pidx_def s_o_def]
        p1[unfolded pidx_def s_h_def] p2[unfolded pidx_def s_o_def])
  then show ?thesis by blast
qed


section \<open>Pair enumeration and the loop of GraphHead.forward\<close>

lemma ne_grid:
  "map2 (map2 (\<lambda>i j. i \<noteq> j)) (map (\<lambda>i. replicate n i) [0..<n_h]) (replicate n_h [0..<n])
   = map (\<lambda>i. map (\<lambda>j. i \<noteq> j) [0..<n]) [0..<n_h]"
proof (rule nth_equalityI)
  show "length (map2 (map2 (\<lambda>i j. i \<noteq> j)) (map (\<lambda>i. replicate n i) [0..<n_h]) (replicate n_h [0..<n]))
      = length (map (\<lambda>i. map (\<lambda>j. i \<noteq> j) [0..<n]) [0..<n_h])"
    by simp
next
  fix i
  assume "i < length (map2 (map2 (\<lambda>i j. i \<noteq> j)) (map (\<lambda>i. replicate n i) [0..<n_h]) (replicate n_h [0..<n]))"
  then have i: "i < n_h" by simp
  have "map2 (\<lambda>i j. i \<noteq> j) (replicate n i) [0..<n] = map (\<lambda>j. i \<noteq> j) [0..<n]"
    by (rule nth_equalityI) simp_all
  with i show "map2 (map2 (\<lambda>i j. i \<noteq> j)) (map (\<lambda>i. replicate n i) [0..<n_h]) (replicate n_h [0..<n]) ! i
      = map (\<lambda>i. map (\<lambda>j. i \<noteq> j) [0..<n]) [0..<n_h] ! i"
    by simp
qed

lemma nonzero_map_upt:
  "nonzero (map (\<lambda>i. map (f i) [0..<n]) [0..<m])
   = concat (map (\<lambda>i. map (Pair i) (filter (f i) [0..<n])) [0..<m])"
proof -
  have row: "map (\<lambda>(j, b). (i, j)) (filter snd (map (\<lambda>k. (k, f i k)) [0..<n]))
      = map (Pair i) (filter (f i) [0..<n])" for i
    by (simp add: filter_map comp_def)
  show ?thesis
    unfolding nonzero_def by (simp add: enumerate_map_upt comp_def row)
qed

lemma kept_pairs_rows:
  "kept_pairs n_h n = concat (map (\<lambda>i. map (Pair i) (filter (\<lambda>j. i \<noteq> j) [0..<n])) [0..<n_h])"
  unfolding kept_pairs_def product_concat_map
  by (simp add: filter_concat comp_def filter_map)

lemma nonzero_meshgrid:
  "nonzero (map2 (map2 (\<lambda>i j. i \<noteq> j)) (fst (meshgrid [0..<n_h] [0..<n]))
                                         (snd (meshgrid [0..<n_h] [0..<n])))
   = kept_pairs n_h n"
  by (simp add: meshgrid_def ne_grid nonzero_map_upt kept_pairs_rows)

lemma set_kept_pairs: "set (kept_pairs n_h n) = {(i, j). i < n_h \<and> j < n \<and> i \<noteq> j}"
  by (auto simp: kept_pairs_def)

lemma distinct_kept_pairs: "distinct (kept_pairs n_h n)"
  by (simp add: kept_pairs_def distinct_product)

lemma filter_eq_upt: "i < n \<Longrightarrow> filter (\<lambda>j. i = j) [0..<n] = [i]"
  by (induction n) (auto simp: less_Suc_eq)

lemma length_filter_ne_upt: "i < n \<Longrightarrow> length (filter (\<lambda>j. i \<noteq> j) [0..<n]) = n - 1"
proof -
  assume i: "i < n"
  have "length (filter (\<lambda>j. i = j) [0..<n]) + length (filter (\<lambda>j. \<not> i = j) [0..<n]) = length [0..<n]"
    by (rule sum_length_filter_compl)
  with i show ?thesis by (simp add: filter_eq_upt)
qed

lemma length_kept_pairs:
  assumes "n_h \<le> n"
  shows "length (kept_pairs n_h n) = n_h * n - n_h"
proof -
  have eq: "map (\<lambda>i. length (filter (\<lambda>j. i \<noteq> j) [0..<n])) [0..<n_h] = map (\<lambda>i. n - 1) [0..<n_h]"
    by (rule map_cong) (use assms in \<open>auto simp: length_filter_ne_upt\<close>)
  have "length (kept_pairs n_h n)
      = sum_list (map (\<lambda>i. length (filter (\<lambda>j. i \<noteq> j) [0..<n])) [0..<n_h])"
    by (simp add: kept_pairs_rows length_concat comp_def)
  also have "\<dots> = sum_list (map (\<lambda>i. n - 1) [0..<n_h])"
    by (simp only: eq)
  also have "\<dots> = n_h * (n - 1)" by (simp add: sum_list_triv)
  also have "\<dots> = n_h * n - n_h" by (simp add: diff_mult_distrib2)
  finally show ?thesis .
qed


lemma nonzero_grid:
  "nonzero (map2 (map2 (\<lambda>i j. i \<noteq> j)) (map (\<lambda>i. replicate n i) [0..<n_h]) (replicate n_h [0..<n]))
   = kept_pairs n_h n"
  by (simp add: ne_grid nonzero_map_upt kept_pairs_rows)


lemma nonzero_grid_upt:
  "nonzero (map2 (map2 (\<lambda>i j. i \<noteq> j)) (map (\<lambda>i. replicate (length [0..<n]) i) [0..<n_h])
       (replicate (length [0..<n_h]) [0..<n]))
   = kept_pairs n_h n"
  using nonzero_grid[of n n_h] by simp

lemma forward_image_Inr:
  assumes res: "forward_image self nets image_shapes global_features box_features targets b_idx
      counter coords labels scores = Inr r"
    and n: "length coords = n"
    and n_h: "length (filter (\<lambda>l. l = human_idx self) labels) = n_h"
  shows "list_all (\<lambda>l. l = human_idx self) (take n_h labels) \<and> kept_pairs n_h n \<noteq> []
    \<and> gather coords (map fst (kept_pairs n_h n)) = Inr (io_boxes_h r)
    \<and> gather coords (map snd (kept_pairs n_h n)) = Inr (io_boxes_o r)
    \<and> gather labels (map snd (kept_pairs n_h n)) = Inr (io_object_class r)
    \<and> compute_prior_scores self (map fst (kept_pairs n_h n)) (map snd (kept_pairs n_h n))
           scores labels = Inr (io_prior r)
    \<and> ncols (io_box_pair_features r) = 2 * representation_size self
    \<and> (\<exists>coords_x coords_y image_shape g.
           gather coords (concat (map (\<lambda>i. replicate n i) [0..<n_h])) = Inr coords_x \<and>
           gather coords (concat (replicate n_h [0..<n])) = Inr coords_y \<and>
           getitem image_shapes b_idx = Inr image_shape \<and> getitem global_features b_idx = Inr g \<and>
           rows (io_box_pair_features r) =
             pair_head nets (take n (drop counter box_features))
               (take n_h (take n (drop counter box_features)))
               coords_x coords_y image_shape g
               (map fst (kept_pairs n_h n)) (map snd (kept_pairs n_h n)))
    \<and> (targets = None \<longrightarrow> io_labels r = None)"
proof -
  note u = res[unfolded forward_image_def Let_def meshgrid_def prod.case nonzero_grid_upt n n_h]
  show ?thesis
    using u by (auto simp: ebind_Inr_iff split: if_splits)
qed

lemma append_results_Nil: "append_results out [] = out"
  by (simp add: append_results_def)

lemma forward_loop_image_results:
  "forward_loop self nets image_shapes gf bf targets b_idx counter out batch
   = ebind (image_results self nets image_shapes gf bf targets b_idx counter batch)
       (\<lambda>rs. Inr (append_results out rs))"
proof (induction batch arbitrary: b_idx counter out)
  case Nil
  show ?case by (simp add: ebind_def append_results_Nil)
next
  case (Cons img rest)
  obtain coords labels scores where img: "img = (coords, labels, scores)" by (cases img)
  show ?case
  proof (cases "skip_condition self coords labels")
    case True
    then show ?thesis
      unfolding img
      apply (simp add: Cons.IH skip_condition_def Let_def)
      apply (cases "image_results self nets image_shapes gf bf targets (Suc b_idx) counter rest")
       apply (simp_all add: ebind_def append_results_def empty_image_def)
      done
  next
    case False
    then show ?thesis
      unfolding img
      apply (simp add: Cons.IH skip_condition_def Let_def)
      apply (cases "forward_image self nets image_shapes gf bf targets b_idx counter coords labels scores")
       apply (simp_all add: ebind_def)
      subgoal for r
        apply (cases "image_results self nets image_shapes gf bf targets (Suc b_idx) (counter + length coords) rest")
         apply (simp_all add: append_results_def)
        done
      done
  qed
qed



lemma image_results_length:
  "image_results self nets image_shapes gf bf targets b_idx counter batch = Inr rs
   \<Longrightarrow> length rs = length batch"
proof (induction batch arbitrary: b_idx counter rs)
  case Nil
  then show ?case by simp
next
  case (Cons img rest)
  obtain coords labels scores where img: "img = (coords, labels, scores)" by (cases img)
  from Cons.prems show ?case
    unfolding img by (auto simp: ebind_Inr_iff dest: Cons.IH split: if_splits)
qed

lemma image_results_nth:
  assumes "image_results self nets image_shapes gf bf targets b_idx counter batch = Inr rs"
    and "k < length batch" and "batch ! k = (coords, labels, scores)"
  shows "if skip_condition self coords labels then rs ! k = empty_image self
         else forward_image self nets image_shapes gf bf targets (b_idx + k)
                (counter + counter_after self (take k batch)) coords labels scores = Inr (rs ! k)"
  using assms
proof (induction batch arbitrary: b_idx counter rs k)
  case Nil
  then show ?case by simp
next
  case (Cons img rest)
  obtain c0 l0 s0 where img: "img = (c0, l0, s0)" by (cases img)
  show ?case
  proof (cases k)
    case 0
    with Cons.prems show ?thesis
      unfolding img by (auto simp: ebind_Inr_iff counter_after_def split: if_splits)
  next
    case (Suc k')
    from Cons.prems(2,3) Suc have k': "k' < length rest" "rest ! k' = (coords, labels, scores)"
      by simp_all
    show ?thesis
    proof (cases "skip_condition self c0 l0")
      case True
      with Cons.prems(1) obtain rs' where
        rs': "image_results self nets image_shapes gf bf targets (Suc b_idx) counter rest = Inr rs'"
        and rs: "rs = empty_image self # rs'"
        unfolding img by (auto simp: ebind_Inr_iff)
      from Cons.IH[OF rs' k'] show ?thesis
        using True Suc rs unfolding img by (simp add: counter_after_def split: if_splits)
    next
      case False
      with Cons.prems(1) obtain r rs' where
        rs': "image_results self nets image_shapes gf bf targets (Suc b_idx)
                (counter + length c0) rest = Inr rs'"
        and rs: "rs = r # rs'"
        unfolding img by (auto simp: ebind_Inr_iff)
      from Cons.IH[OF rs' k'] show ?thesis
        using False Suc rs unfolding img by (simp add: counter_after_def add.assoc split: if_splits)
    qed
  qed
qed

section \<open>GraphHead.forward returns on well-formed batches\<close>

lemma tensor_min_same_shape:
  assumes "length (rows a) = length (rows b)" and "ncols a = ncols b"
    and "rect a" and "rect b"
  shows "\<exists>m. tensor_min a b = Inr m \<and> ncols m = ncols a \<and> length (rows m) = length (rows a)
           \<and> rect m"
proof -
  have e: "expand (ncols b) r = r" if "r \<in> set (rows a) \<or> r \<in> set (rows b)" for r
    using that assms unfolding rect_def expand_def by auto
  have rows: "map2 (\<lambda>ra rb. map2 min (expand (ncols b) ra) (expand (ncols b) rb)) (rows a) (rows b)
      = map2 (\<lambda>ra rb. map2 min ra rb) (rows a) (rows b)"
  proof (rule map_cong[OF refl])
    fix p assume pin: "p \<in> set (zip (rows a) (rows b))"
    obtain ra rb where p0: "p = (ra, rb)" by (cases p)
    with pin have p: "p = (ra, rb)" "ra \<in> set (rows a)" "rb \<in> set (rows b)"
      by (auto dest: set_zip_leftD set_zip_rightD)
    then show "(case p of (ra, rb) \<Rightarrow> map2 min (expand (ncols b) ra) (expand (ncols b) rb))
        = (case p of (ra, rb) \<Rightarrow> map2 min ra rb)"
      using e[of ra] e[of rb] by simp
  qed
  have r: "rect \<lparr>ncols = ncols b, rows = map2 (\<lambda>ra rb. map2 min ra rb) (rows a) (rows b)\<rparr>"
    unfolding rect_def
  proof (clarsimp)
    fix ra rb assume "(ra, rb) \<in> set (zip (rows a) (rows b))"
    then have "ra \<in> set (rows a)" "rb \<in> set (rows b)"
      by (auto dest: set_zip_leftD set_zip_rightD)
    then show "min (length ra) (length rb) = ncols b"
      using assms unfolding rect_def by simp
  qed
  show ?thesis
    using assms r
    by (simp add: tensor_min_def broadcast_shape_def ebind_def expand_same rows)
qed

lemma associate_with_ground_truth_total:
  assumes wf: "well_formed_target self t" and len: "length boxes_o = length boxes_h"
  shows "\<exists>l. associate_with_ground_truth self nets boxes_h boxes_o t = Inr l"
proof -
  let ?a = "box_iou_matrix (box_iou nets) boxes_h (tgt_boxes_h t)"
  let ?b = "box_iou_matrix (box_iou nets) boxes_o (tgt_boxes_o t)"
  have "length (rows ?a) = length (rows ?b)" "ncols ?a = ncols ?b" "rect ?a" "rect ?b"
    using wf len by (auto simp: box_iou_matrix_def well_formed_target_def rect_def)
  from tensor_min_same_shape[OF this] obtain m where
    m: "tensor_min ?a ?b = Inr m" and mc: "ncols m = length (tgt_boxes_h t)"
    and mr: "length (rows m) = length boxes_h" and rm: "rect m"
    by (auto simp: box_iou_matrix_def)
  define xy where "xy = nonzero (map (map (\<lambda>v. fg_iou_thresh self \<le> v)) (rows m))"
  have xy: "x < length boxes_h \<and> y < length (tgt_labels t)" if "(x, y) \<in> set xy" for x y
    using that rm mr mc wf unfolding xy_def set_nonzero rect_def well_formed_target_def
    by auto
  have g: "gather (tgt_labels t) (map snd xy) = Inr (map ((!) (tgt_labels t)) (map snd xy))"
    by (rule gather_total) (use xy in auto)
  have "\<exists>l. index_put (zeros (length boxes_h) (num_cls self))
      (zip (map fst xy) (zip (map ((!) (tgt_labels t)) (map snd xy))
         (replicate (length (map fst xy)) 1))) = Inr l"
  proof (rule index_put_total)
    fix i j v
    assume "(i, j, v) \<in> set (zip (map fst xy) (zip (map ((!) (tgt_labels t)) (map snd xy))
         (replicate (length (map fst xy)) 1)))"
    then have "i \<in> set (map fst xy)"
      and "(j, v) \<in> set (zip (map ((!) (tgt_labels t)) (map snd xy))
         (replicate (length (map fst xy)) 1))"
      by (auto dest: set_zip_leftD set_zip_rightD)
    then have "i \<in> set (map fst xy)" and "j \<in> set (map ((!) (tgt_labels t)) (map snd xy))"
      by (auto dest: set_zip_leftD)
    then obtain p q where p: "p \<in> set xy" "i = fst p" and q: "q \<in> set xy" "j = tgt_labels t ! snd q"
      by auto
    have "i < length boxes_h" using xy[of "fst p" "snd p"] p by simp
    moreover have "snd q < length (tgt_labels t)" using xy[of "fst q" "snd q"] q by simp
    then have "j < num_cls self"
      using wf q unfolding well_formed_target_def by (simp add: nth_mem)
    ultimately have "i < length boxes_h" and "j < num_cls self" by simp_all
    then show "i < length (rows (zeros (length boxes_h) (num_cls self)))
        \<and> j < ncols (zeros (length boxes_h) (num_cls self))"
      by (simp add: zeros_def)
  qed
  then show ?thesis
    unfolding associate_with_ground_truth_def Let_def
    by (simp add: m ebind_def xy_def[symmetric] g)
qed


lemma ebind_totalI:
  "\<exists>v. m = Inr v \<Longrightarrow> (\<And>v. m = Inr v \<Longrightarrow> \<exists>r. f v = Inr r) \<Longrightarrow> \<exists>r. ebind m f = Inr r"
  by (auto simp: ebind_def)

lemma gather_ex: "(\<And>i. i \<in> set idx \<Longrightarrow> i < length xs) \<Longrightarrow> \<exists>v. gather xs idx = Inr v"
  using gather_total[of idx xs] by blast

lemma getitem_ex: "i < length xs \<Longrightarrow> \<exists>v. getitem xs i = Inr v"
  by (simp add: getitem_def)

lemma kept_pairs_nonempty: "1 \<le> n_h \<Longrightarrow> 2 \<le> n \<Longrightarrow> kept_pairs n_h n \<noteq> []"
proof -
  assume "1 \<le> n_h" "2 \<le> n"
  then have "(0, 1) \<in> set (kept_pairs n_h n)" unfolding set_kept_pairs by simp
  then show ?thesis by auto
qed

lemma forward_image_total:
  assumes wf: "well_formed_image self coords labels scores"
    and ns: "\<not> skip_condition self coords labels"
    and bf: "counter + length coords \<le> length box_features"
    and sh: "b_idx < length image_shapes"
    and gf: "b_idx < length global_features"
    and tg: "case targets of None \<Rightarrow> True
             | Some ts \<Rightarrow> b_idx < length ts \<and> well_formed_target self (ts ! b_idx)"
  shows "\<exists>r. forward_image self nets image_shapes global_features box_features targets b_idx
           counter coords labels scores = Inr r"
proof -
  define n where "n = length coords"
  define n_h where "n_h = length (filter (\<lambda>l. l = human_idx self) labels)"
  have n: "length coords = n" and nh: "length (filter (\<lambda>l. l = human_idx self) labels) = n_h"
    by (simp_all add: n_def n_h_def)
  have ll: "length labels = n" and ls: "length scores = n"
    using wf by (simp_all add: well_formed_image_def n_def)
  have n2: "2 \<le> n" and nh1: "1 \<le> n_h"
    using ns by (auto simp: skip_condition_def n_def n_h_def Suc_le_eq)
  have nhn: "n_h \<le> n" unfolding n_h_def ll[symmetric] by (rule length_filter_le)
  have hf: "list_all (\<lambda>l. l = human_idx self) (take n_h labels)"
    using wf ns by (simp add: well_formed_image_def n_h_def)
  have tbl: "\<forall>l\<in>set labels. l < length (object_class_to_target_class self)
                \<and> (\<forall>t\<in>set (object_class_to_target_class self ! l). t < num_cls self)"
    using wf ns by (simp add: well_formed_image_def)
  have kne: "length (map fst (kept_pairs n_h n)) \<noteq> 0"
    using kept_pairs_nonempty[OF nh1 n2] by simp
  have xr: "i < n_h" if "i \<in> set (concat (map (\<lambda>i. replicate (length [0..<n]) i) [0..<n_h]))" for i
    using that by auto
  have yr: "i < n" if "i \<in> set (concat (replicate (length [0..<n_h]) [0..<n]))" for i
    using that by (auto split: if_splits)
  have xk: "i < n_h" if "i \<in> set (map fst (kept_pairs n_h n))" for i
    using that by (auto simp: set_kept_pairs)
  have yk: "i < n" if "i \<in> set (map snd (kept_pairs n_h n))" for i
    using that by (auto simp: set_kept_pairs)
  have lne: "length (take n (drop counter box_features)) = n" using bf n by simp
  have lhe: "length (take n_h (take n (drop counter box_features))) = n_h"
    using lne nhn by simp
  have X_c: "i < length coords"
    and X_h: "i < length (take n_h (take n (drop counter box_features)))"
    if "i \<in> set (concat (map (\<lambda>i. replicate (length [0..<n]) i) [0..<n_h]))" for i
    using xr[OF that] nhn n lhe by simp_all
  have Y_c: "i < length coords" and Y_n: "i < length (take n (drop counter box_features))"
    if "i \<in> set (concat (replicate (length [0..<n_h]) [0..<n]))" for i
    using yr[OF that] n lne by simp_all
  have xk_c: "i < length coords" and xk_s: "i < length scores"
    and xk_h: "i < length (take n_h (take n (drop counter box_features)))"
    if "i \<in> set (map fst (kept_pairs n_h n))" for i
    using xk[OF that] nhn n ls lhe by simp_all
  have yk_c: "i < length coords" and yk_l: "i < length labels" and yk_s: "i < length scores"
    and yk_n: "i < length (take n (drop counter box_features))"
    if "i \<in> set (map snd (kept_pairs n_h n))" for i
    using yk[OF that] n ll ls lne by simp_all
  have pri: "\<exists>prior. compute_prior_scores self (map fst (kept_pairs n_h n))
      (map snd (kept_pairs n_h n)) scores labels = Inr prior"
  proof (rule compute_prior_scores_total)
    show "length (map fst (kept_pairs n_h n)) = length (map snd (kept_pairs n_h n))" by simp
    show "\<forall>i\<in>set (map fst (kept_pairs n_h n)). i < length scores"
      using xk_s by blast
    show "\<forall>j\<in>set (map snd (kept_pairs n_h n)). j < length scores \<and> j < length labels \<and>
        labels ! j < length (object_class_to_target_class self) \<and>
        (\<forall>t\<in>set (object_class_to_target_class self ! (labels ! j)). t < num_cls self)"
    proof
      fix j assume j: "j \<in> set (map snd (kept_pairs n_h n))"
      have "labels ! j \<in> set labels" using yk_l[OF j] by (rule nth_mem)
      with tbl yk_s[OF j] yk_l[OF j]
      show "j < length scores \<and> j < length labels \<and>
        labels ! j < length (object_class_to_target_class self) \<and>
        (\<forall>t\<in>set (object_class_to_target_class self ! (labels ! j)). t < num_cls self)"
        by blast
    qed
  qed
  have lab: "\<exists>v. (case targets of None \<Rightarrow> Inr None
        | Some ts \<Rightarrow>
            ebind (gather coords (map fst (kept_pairs n_h n))) (\<lambda>bh.
            ebind (gather coords (map snd (kept_pairs n_h n))) (\<lambda>bo.
            ebind (getitem ts b_idx) (\<lambda>t.
            ebind (associate_with_ground_truth self nets bh bo t) (\<lambda>l.
            Inr (Some l)))))) = Inr v"
  proof (cases targets)
    case None
    then show ?thesis by simp
  next
    case (Some ts)
    with tg have b: "b_idx < length ts" and wt: "well_formed_target self (ts ! b_idx)" by simp_all
    have g1: "gather coords (map fst (kept_pairs n_h n))
        = Inr (map ((!) coords) (map fst (kept_pairs n_h n)))"
      by (rule gather_total) (rule xk_c)
    have g2: "gather coords (map snd (kept_pairs n_h n))
        = Inr (map ((!) coords) (map snd (kept_pairs n_h n)))"
      by (rule gather_total) (rule yk_c)
    from associate_with_ground_truth_total[OF wt, of "map ((!) coords) (map snd (kept_pairs n_h n))"
        "map ((!) coords) (map fst (kept_pairs n_h n))" nets]
    obtain l where "associate_with_ground_truth self nets
        (map ((!) coords) (map fst (kept_pairs n_h n)))
        (map ((!) coords) (map snd (kept_pairs n_h n))) (ts ! b_idx) = Inr l"
      by auto
    then show ?thesis
      unfolding Some by (simp add: g1 g2 ebind_def getitem_def b)
  qed
  show ?thesis
    unfolding forward_image_def Let_def meshgrid_def prod.case nonzero_grid_upt n nh
    apply (simp only: hf kne not_True_eq_False if_False)
    apply (rule ebind_totalI, rule gather_ex, erule X_c)
    apply (rule ebind_totalI, rule gather_ex, erule Y_c)
    apply (rule ebind_totalI, rule getitem_ex, rule sh)
    apply (rule ebind_totalI)
     apply (cases "0 < num_iter self")
      apply (simp only: if_True)
      apply (rule ebind_totalI, rule gather_ex, erule X_h)
      apply (rule gather_ex, erule Y_n)
     apply simp
    apply (rule ebind_totalI, rule lab)
    apply (rule ebind_totalI, rule gather_ex, erule xk_h)
    apply (rule ebind_totalI, rule gather_ex, erule yk_n)
    apply (rule ebind_totalI, rule getitem_ex, rule gf)
    apply (rule ebind_totalI, rule gather_ex, erule xk_c)
    apply (rule ebind_totalI, rule gather_ex, erule yk_c)
    apply (rule ebind_totalI, rule gather_ex, erule yk_l)
    apply (rule ebind_totalI, rule pri)
    apply blast
    done
qed


lemma image_results_total:
  assumes imgs: "\<forall>(coords, labels, scores)\<in>set batch. well_formed_image self coords labels scores"
    and bf: "counter + sum_list (map (\<lambda>(coords, labels, scores). length coords) batch)
               \<le> length box_features"
    and sh: "b_idx + length batch \<le> length image_shapes"
    and gf: "b_idx + length batch \<le> length global_features"
    and tg: "case targets of None \<Rightarrow> True
             | Some ts \<Rightarrow> b_idx + length batch \<le> length ts
                 \<and> (\<forall>t\<in>set ts. well_formed_target self t)"
  shows "\<exists>rs. image_results self nets image_shapes global_features box_features targets b_idx
            counter batch = Inr rs"
  using assms
proof (induction batch arbitrary: b_idx counter)
  case Nil
  then show ?case by simp
next
  case (Cons img rest)
  obtain coords labels scores where img: "img = (coords, labels, scores)" by (cases img)
  have wfi: "well_formed_image self coords labels scores"
    and wfr: "\<forall>(coords, labels, scores)\<in>set rest. well_formed_image self coords labels scores"
    using Cons.prems(1) unfolding img by simp_all
  have sh': "Suc b_idx + length rest \<le> length image_shapes"
    and gf': "Suc b_idx + length rest \<le> length global_features"
    using Cons.prems(3,4) by simp_all
  have tg': "case targets of None \<Rightarrow> True
             | Some ts \<Rightarrow> Suc b_idx + length rest \<le> length ts
                 \<and> (\<forall>t\<in>set ts. well_formed_target self t)"
    using Cons.prems(5) by (cases targets) simp_all
  have bf0: "counter + (length coords
      + sum_list (map (\<lambda>(coords, labels, scores). length coords) rest)) \<le> length box_features"
    using Cons.prems(2) unfolding img by (simp add: case_prod_unfold)
  show ?case
  proof (cases "skip_condition self coords labels")
    case True
    have "counter + sum_list (map (\<lambda>(coords, labels, scores). length coords) rest)
        \<le> length box_features"
      using bf0 by (simp add: case_prod_unfold)
    from Cons.IH[OF wfr this sh' gf' tg'] obtain rs where
      "image_results self nets image_shapes global_features box_features targets (Suc b_idx)
         counter rest = Inr rs"
      by blast
    then show ?thesis unfolding img using True by (simp add: ebind_def)
  next
    case False
    have tgi: "case targets of None \<Rightarrow> True
             | Some ts \<Rightarrow> b_idx < length ts \<and> well_formed_target self (ts ! b_idx)"
      using Cons.prems(5) by (cases targets) simp_all
    have "\<exists>r. forward_image self nets image_shapes global_features box_features targets b_idx
           counter coords labels scores = Inr r"
    proof (rule forward_image_total[OF wfi False _ _ _ tgi])
      show "counter + length coords \<le> length box_features" using bf0 by simp
      show "b_idx < length image_shapes" using Cons.prems(3) by simp
      show "b_idx < length global_features" using Cons.prems(4) by simp
    qed
    then obtain r where r: "forward_image self nets image_shapes global_features box_features
        targets b_idx counter coords labels scores = Inr r"
      by blast
    have "counter + length coords
        + sum_list (map (\<lambda>(coords, labels, scores). length coords) rest) \<le> length box_features"
      using bf0 by (simp add: case_prod_unfold)
    from Cons.IH[OF wfr this sh' gf' tg'] obtain rs where
      "image_results self nets image_shapes global_features box_features targets (Suc b_idx)
         (counter + length coords) rest = Inr rs"
      by blast
    then show ?thesis unfolding img using False r by (simp add: ebind_def)
  qed
qed

lemma forward_total:
  assumes wf: "well_formed_batch self nets features image_shapes box_features box_coords
      box_labels box_scores targets"
    and tr: "training \<longrightarrow> targets \<noteq> None"
  shows "\<exists>out. forward self nets training features image_shapes box_features box_coords
      box_labels box_scores targets = Inr out"
proof -
  let ?batch = "zip box_coords (zip box_labels box_scores)"
  have lb: "length ?batch = length box_coords"
    using wf by (simp add: well_formed_batch_def)
  have "map fst ?batch = box_coords"
    using wf by (simp add: well_formed_batch_def)
  moreover have "map (\<lambda>(coords, labels, scores). length coords) ?batch
      = map length (map fst ?batch)"
    by (simp add: case_prod_beta)
  ultimately have s: "sum_list (map (\<lambda>(coords, labels, scores). length coords) ?batch)
      = sum_list (map length box_coords)"
    by simp
  have "\<exists>rs. image_results self nets image_shapes (avg_pool nets features)
      (map (box_head nets) box_features) targets 0 0 ?batch = Inr rs"
  proof (rule image_results_total)
    show "\<forall>(coords, labels, scores)\<in>set ?batch. well_formed_image self coords labels scores"
      using wf by (simp add: well_formed_batch_def)
    show "0 + sum_list (map (\<lambda>(coords, labels, scores). length coords) ?batch)
        \<le> length (map (box_head nets) box_features)"
      unfolding s using wf by (simp add: well_formed_batch_def)
    show "0 + length ?batch \<le> length image_shapes"
      unfolding lb using wf by (simp add: well_formed_batch_def)
    show "0 + length ?batch \<le> length (avg_pool nets features)"
      unfolding lb using wf by (simp add: well_formed_batch_def)
    show "case targets of None \<Rightarrow> True
        | Some ts \<Rightarrow> 0 + length ?batch \<le> length ts \<and> (\<forall>t\<in>set ts. well_formed_target self t)"
      unfolding lb using wf by (cases targets) (simp_all add: well_formed_batch_def)
  qed
  then show ?thesis
    unfolding forward_def Let_def forward_loop_image_results using tr
    by (auto simp: ebind_def)
qed





lemma forward_Inr:
  assumes "forward self nets training features image_shapes box_features box_coords box_labels
             box_scores targets = Inr out"
  shows "\<exists>rs. image_results self nets image_shapes (avg_pool nets features)
                (map (box_head nets) box_features) targets 0 0
                (zip box_coords (zip box_labels box_scores)) = Inr rs
            \<and> out = append_results
                \<lparr>all_box_pair_features = [], all_boxes_h = [], all_boxes_o = [],
                 all_object_class = [], all_labels = [], all_prior = []\<rparr> rs"
  using assms unfolding forward_def Let_def forward_loop_image_results
  by (auto simp: ebind_Inr_iff split: if_splits)

lemma gather_Inr_map: "gather xs idx = Inr ys \<Longrightarrow> ys = map (\<lambda>i. xs ! i) idx"
proof (rule nth_equalityI)
  assume g: "gather xs idx = Inr ys"
  show "length ys = length (map (\<lambda>i. xs ! i) idx)"
    using gather_Inr_length[OF g] by simp
  fix k assume "k < length ys"
  then have "k < length idx" using gather_Inr_length[OF g] by simp
  with gather_Inr_nth[OF g] show "ys ! k = map (\<lambda>i. xs ! i) idx ! k" by simp
qed

lemma forward_nth_not_skipped:
  assumes res: "forward self nets training features image_shapes box_features box_coords box_labels
             box_scores targets = Inr out"
    and k: "k < length box_coords" "k < length box_labels" "k < length box_scores"
    and noskip: "\<not> skip_condition self (box_coords ! k) (box_labels ! k)"
  shows "\<exists>r. forward_image self nets image_shapes (avg_pool nets features)
               (map (box_head nets) box_features) targets k
               (counter_after self (take k (zip box_coords (zip box_labels box_scores))))
               (box_coords ! k) (box_labels ! k) (box_scores ! k) = Inr r
           \<and> all_box_pair_features out ! k = io_box_pair_features r
           \<and> all_boxes_h out ! k = io_boxes_h r
           \<and> all_boxes_o out ! k = io_boxes_o r
           \<and> all_object_class out ! k = io_object_class r
           \<and> all_prior out ! k = io_prior r"
proof -
  let ?batch = "zip box_coords (zip box_labels box_scores)"
  from forward_Inr[OF res] obtain rs where
    rs: "image_results self nets image_shapes (avg_pool nets features)
           (map (box_head nets) box_features) targets 0 0 ?batch = Inr rs"
    and out: "out = append_results
                \<lparr>all_box_pair_features = [], all_boxes_h = [], all_boxes_o = [],
                 all_object_class = [], all_labels = [], all_prior = []\<rparr> rs"
    by blast
  have kb: "k < length ?batch" using k by simp
  have bk: "?batch ! k = (box_coords ! k, box_labels ! k, box_scores ! k)" using k by simp
  have len: "length rs = length ?batch" using rs by (rule image_results_length)
  from image_results_nth[OF rs kb bk] noskip
  have "forward_image self nets image_shapes (avg_pool nets features)
               (map (box_head nets) box_features) targets k
               (counter_after self (take k ?batch))
               (box_coords ! k) (box_labels ! k) (box_scores ! k) = Inr (rs ! k)"
    by simp
  moreover have "all_box_pair_features out ! k = io_box_pair_features (rs ! k)"
    "all_boxes_h out ! k = io_boxes_h (rs ! k)" "all_boxes_o out ! k = io_boxes_o (rs ! k)"
    "all_object_class out ! k = io_object_class (rs ! k)" "all_prior out ! k = io_prior (rs ! k)"
    using kb len unfolding out append_results_def by simp_all
  ultimately show ?thesis by blast
qed

lemma forward_lengths:
  assumes res: "forward self nets training features image_shapes box_features box_coords
             box_labels box_scores targets = Inr out"
    and lens: "length box_labels = length box_coords" "length box_scores = length box_coords"
  shows "length (all_box_pair_features out) = length box_coords"
    and "length (all_boxes_h out) = length box_coords"
    and "length (all_boxes_o out) = length box_coords"
    and "length (all_object_class out) = length box_coords"
    and "length (all_prior out) = length box_coords"
proof -
  from forward_Inr[OF res] obtain rs where
    rs: "image_results self nets image_shapes (avg_pool nets features)
           (map (box_head nets) box_features) targets 0 0
           (zip box_coords (zip box_labels box_scores)) = Inr rs"
    and out: "out = append_results
                \<lparr>all_box_pair_features = [], all_boxes_h = [], all_boxes_o = [],
                 all_object_class = [], all_labels = [], all_prior = []\<rparr> rs"
    by blast
  have lrs: "length rs = length box_coords"
    using image_results_length[OF rs] lens by simp
  show "length (all_box_pair_features out) = length box_coords"
    and "length (all_boxes_h out) = length box_coords"
    and "length (all_boxes_o out) = length box_coords"
    and "length (all_object_class out) = length box_coords"
    and "length (all_prior out) = length box_coords"
    unfolding out append_results_def using lrs by simp_all
qed

lemma well_formed_batch_nth:
  assumes wf: "well_formed_batch self nets features image_shapes box_features box_coords
      box_labels box_scores targets"
    and k: "k < length box_coords"
  shows "well_formed_image self (box_coords ! k) (box_labels ! k) (box_scores ! k)"
proof -
  have lens: "length box_labels = length box_coords" "length box_scores = length box_coords"
    and all: "\<forall>(coords, labels, scores)\<in>set (zip box_coords (zip box_labels box_scores)).
          well_formed_image self coords labels scores"
    using wf by (simp_all add: well_formed_batch_def)
  have "zip box_coords (zip box_labels box_scores) ! k
      \<in> set (zip box_coords (zip box_labels box_scores))"
    by (rule nth_mem) (use k lens in simp)
  moreover have "zip box_coords (zip box_labels box_scores) ! k
      = (box_coords ! k, box_labels ! k, box_scores ! k)"
    using k lens by simp
  ultimately have "(box_coords ! k, box_labels ! k, box_scores ! k)
      \<in> set (zip box_coords (zip box_labels box_scores))"
    by simp
  with all show ?thesis by blast
qed

text \<open>
  Claim C5. On a well-formed batch (boxes, labels and scores parallel; every image that is
  not skipped has its humans first and labels known to the class table) \<open>forward\<close> returns:
  the \<open>ValueError\<close> of line 561 and every other error branch are excluded. It returns one
  entry per image, and an image \<open>k\<close> that passed the skip test (at least one human, at least
  two detections) has as its output pairs exactly the cross product of the human indices
  \<open>0..<n_h\<close> and all indices \<open>0..<n\<close> without the pairs whose two indices are equal: each
  such pair once, so \<open>n_h * n - n_h\<close> pairs, at least one, none with equal indices. The
  human boxes, object boxes and object classes of the image are read at these pairs, and
  both priors have one row per pair.
\<close>

theorem output_pairs_are_cross_product_without_self_pairs:
  assumes wf: "well_formed_batch self nets features image_shapes box_features box_coords
      box_labels box_scores targets"
    and tr: "training \<longrightarrow> targets \<noteq> None"
  shows "\<exists>out. forward self nets training features image_shapes box_features box_coords
             box_labels box_scores targets = Inr out
     \<and> length (all_boxes_h out) = length box_coords
     \<and> length (all_boxes_o out) = length box_coords
     \<and> length (all_object_class out) = length box_coords
     \<and> (\<forall>k<length box_coords. \<not> skip_condition self (box_coords ! k) (box_labels ! k) \<longrightarrow>
          (\<exists>pairs.
              set pairs = {(i, j). i < length (filter (\<lambda>l. l = human_idx self) (box_labels ! k))
                                   \<and> j < length (box_coords ! k) \<and> i \<noteq> j}
            \<and> distinct pairs
            \<and> length pairs = length (filter (\<lambda>l. l = human_idx self) (box_labels ! k))
                                * length (box_coords ! k)
                              - length (filter (\<lambda>l. l = human_idx self) (box_labels ! k))
            \<and> pairs \<noteq> []
            \<and> all_boxes_h out ! k = map (\<lambda>(i, j). box_coords ! k ! i) pairs
            \<and> all_boxes_o out ! k = map (\<lambda>(i, j). box_coords ! k ! j) pairs
            \<and> all_object_class out ! k = map (\<lambda>(i, j). box_labels ! k ! j) pairs
            \<and> (\<forall>p\<in>set (all_prior out ! k). length (rows p) = length pairs)))"
proof -
  have lens: "length box_labels = length box_coords" "length box_scores = length box_coords"
    using wf by (simp_all add: well_formed_batch_def)
  from forward_total[OF wf tr] obtain out where
    res: "forward self nets training features image_shapes box_features box_coords
             box_labels box_scores targets = Inr out"
    by (rule exE)
  note l = forward_lengths[OF res lens]
  have body: "\<exists>pairs.
              set pairs = {(i, j). i < length (filter (\<lambda>l. l = human_idx self) (box_labels ! k))
                                   \<and> j < length (box_coords ! k) \<and> i \<noteq> j}
            \<and> distinct pairs
            \<and> length pairs = length (filter (\<lambda>l. l = human_idx self) (box_labels ! k))
                                * length (box_coords ! k)
                              - length (filter (\<lambda>l. l = human_idx self) (box_labels ! k))
            \<and> pairs \<noteq> []
            \<and> all_boxes_h out ! k = map (\<lambda>(i, j). box_coords ! k ! i) pairs
            \<and> all_boxes_o out ! k = map (\<lambda>(i, j). box_coords ! k ! j) pairs
            \<and> all_object_class out ! k = map (\<lambda>(i, j). box_labels ! k ! j) pairs
            \<and> (\<forall>p\<in>set (all_prior out ! k). length (rows p) = length pairs)"
    if k: "k < length box_coords"
      and ns: "\<not> skip_condition self (box_coords ! k) (box_labels ! k)" for k
  proof -
    let ?n = "length (box_coords ! k)"
    let ?n_h = "length (filter (\<lambda>l. l = human_idx self) (box_labels ! k))"
    have "\<exists>r. forward_image self nets image_shapes (avg_pool nets features)
                 (map (box_head nets) box_features) targets k
                 (counter_after self (take k (zip box_coords (zip box_labels box_scores))))
                 (box_coords ! k) (box_labels ! k) (box_scores ! k) = Inr r
             \<and> all_box_pair_features out ! k = io_box_pair_features r
             \<and> all_boxes_h out ! k = io_boxes_h r
             \<and> all_boxes_o out ! k = io_boxes_o r
             \<and> all_object_class out ! k = io_object_class r
             \<and> all_prior out ! k = io_prior r"
    proof (rule forward_nth_not_skipped[OF res _ _ _ ns])
      show "k < length box_coords" by (rule k)
      show "k < length box_labels" using k lens by simp
      show "k < length box_scores" using k lens by simp
    qed
    then obtain r where
      r: "forward_image self nets image_shapes (avg_pool nets features)
                 (map (box_head nets) box_features) targets k
                 (counter_after self (take k (zip box_coords (zip box_labels box_scores))))
                 (box_coords ! k) (box_labels ! k) (box_scores ! k) = Inr r"
      and o: "all_boxes_h out ! k = io_boxes_h r" "all_boxes_o out ! k = io_boxes_o r"
        "all_object_class out ! k = io_object_class r" "all_prior out ! k = io_prior r"
      by blast
    note f = forward_image_Inr[OF r refl refl]
    have ne: "kept_pairs ?n_h ?n \<noteq> []"
      by (rule f[THEN conjunct2, THEN conjunct1])
    have bh: "gather (box_coords ! k) (map fst (kept_pairs ?n_h ?n)) = Inr (io_boxes_h r)"
      by (rule f[THEN conjunct2, THEN conjunct2, THEN conjunct1])
    have bo: "gather (box_coords ! k) (map snd (kept_pairs ?n_h ?n)) = Inr (io_boxes_o r)"
      by (rule f[THEN conjunct2, THEN conjunct2, THEN conjunct2, THEN conjunct1])
    have oc: "gather (box_labels ! k) (map snd (kept_pairs ?n_h ?n)) = Inr (io_object_class r)"
      by (rule f[THEN conjunct2, THEN conjunct2, THEN conjunct2, THEN conjunct2, THEN conjunct1])
    have pr: "compute_prior_scores self (map fst (kept_pairs ?n_h ?n)) (map snd (kept_pairs ?n_h ?n))
               (box_scores ! k) (box_labels ! k) = Inr (io_prior r)"
      by (rule f[THEN conjunct2, THEN conjunct2, THEN conjunct2, THEN conjunct2, THEN conjunct2,
            THEN conjunct1])
    have "length (box_labels ! k) = length (box_coords ! k)"
      using well_formed_batch_nth[OF wf k] by (simp add: well_formed_image_def)
    then have nh_le: "?n_h \<le> ?n" by (metis length_filter_le)
    have "length (map fst (kept_pairs ?n_h ?n)) = length (map snd (kept_pairs ?n_h ?n))" by simp
    from compute_prior_scores_Inr[OF pr this] obtain ph po where
      "io_prior r = [ph, po]" "length (rows ph) = length (map fst (kept_pairs ?n_h ?n))"
      "length (rows po) = length (map fst (kept_pairs ?n_h ?n))"
      by blast
    then have prior: "\<forall>p\<in>set (all_prior out ! k). length (rows p) = length (kept_pairs ?n_h ?n)"
      using o(4) by simp
    have e1: "all_boxes_h out ! k = map (\<lambda>(i, j). box_coords ! k ! i) (kept_pairs ?n_h ?n)"
      unfolding o gather_Inr_map[OF bh] by (simp add: comp_def case_prod_unfold)
    have e2: "all_boxes_o out ! k = map (\<lambda>(i, j). box_coords ! k ! j) (kept_pairs ?n_h ?n)"
      unfolding o gather_Inr_map[OF bo] by (simp add: comp_def case_prod_unfold)
    have e3: "all_object_class out ! k = map (\<lambda>(i, j). box_labels ! k ! j) (kept_pairs ?n_h ?n)"
      unfolding o gather_Inr_map[OF oc] by (simp add: comp_def case_prod_unfold)
    have "set (kept_pairs ?n_h ?n) = {(i, j). i < ?n_h \<and> j < ?n \<and> i \<noteq> j}
        \<and> distinct (kept_pairs ?n_h ?n)
        \<and> length (kept_pairs ?n_h ?n) = ?n_h * ?n - ?n_h
        \<and> kept_pairs ?n_h ?n \<noteq> []
        \<and> all_boxes_h out ! k = map (\<lambda>(i, j). box_coords ! k ! i) (kept_pairs ?n_h ?n)
        \<and> all_boxes_o out ! k = map (\<lambda>(i, j). box_coords ! k ! j) (kept_pairs ?n_h ?n)
        \<and> all_object_class out ! k = map (\<lambda>(i, j). box_labels ! k ! j) (kept_pairs ?n_h ?n)
        \<and> (\<forall>p\<in>set (all_prior out ! k). length (rows p) = length (kept_pairs ?n_h ?n))"
      by (intro conjI set_kept_pairs distinct_kept_pairs length_kept_pairs[OF nh_le] ne e1 e2 e3 prior)
    then show ?thesis by (rule exI[where x = "kept_pairs ?n_h ?n"])
  qed
  show ?thesis
  proof (intro exI[of _ out] conjI allI impI)
    show "forward self nets training features image_shapes box_features box_coords
             box_labels box_scores targets = Inr out" by (rule res)
    show "length (all_boxes_h out) = length box_coords" by (rule l(2))
    show "length (all_boxes_o out) = length box_coords" by (rule l(3))
    show "length (all_object_class out) = length box_coords" by (rule l(4))
  next
    fix k assume "k < length box_coords" "\<not> skip_condition self (box_coords ! k) (box_labels ! k)"
    then show "\<exists>pairs.
              set pairs = {(i, j). i < length (filter (\<lambda>l. l = human_idx self) (box_labels ! k))
                                   \<and> j < length (box_coords ! k) \<and> i \<noteq> j}
            \<and> distinct pairs
            \<and> length pairs = length (filter (\<lambda>l. l = human_idx self) (box_labels ! k))
                                * length (box_coords ! k)
                              - length (filter (\<lambda>l. l = human_idx self) (box_labels ! k))
            \<and> pairs \<noteq> []
            \<and> all_boxes_h out ! k = map (\<lambda>(i, j). box_coords ! k ! i) pairs
            \<and> all_boxes_o out ! k = map (\<lambda>(i, j). box_coords ! k ! j) pairs
            \<and> all_object_class out ! k = map (\<lambda>(i, j). box_labels ! k ! j) pairs
            \<and> (\<forall>p\<in>set (all_prior out ! k). length (rows p) = length pairs)"
      by (rule body)
  qed
qed


theorem output_pairs_are_cross_product_without_self_pairs_witness:
  "\<exists>out. forward demo_head demo_nets False [[7]] [(1, 1)] [[10], [20], [30]]
            [[demo_box 0, demo_box 1, demo_box 2]] [[0, 2, 1]] [[1, 1 / 2, 1 / 4]] None = Inr out
     \<and> length (all_boxes_h out) = 1 \<and> length (all_boxes_o out) = 1
     \<and> length (all_object_class out) = 1
     \<and> (\<exists>pairs. set pairs = {(i, j). i < 1 \<and> j < 3 \<and> i \<noteq> j}
            \<and> distinct pairs \<and> length pairs = 1 * 3 - 1 \<and> pairs \<noteq> []
            \<and> all_boxes_h out ! 0
                = map (\<lambda>(i, j). [demo_box 0, demo_box 1, demo_box 2] ! i) pairs
            \<and> all_boxes_o out ! 0
                = map (\<lambda>(i, j). [demo_box 0, demo_box 1, demo_box 2] ! j) pairs
            \<and> all_object_class out ! 0 = map (\<lambda>(i, j). [0, 2, 1] ! j) pairs
            \<and> (\<forall>p\<in>set (all_prior out ! 0). length (rows p) = length pairs))"
proof -
  have ns: "\<not> skip_condition demo_head ([[demo_box 0, demo_box 1, demo_box 2]] ! 0) ([[0, 2, 1]] ! 0)"
    by (simp add: skip_condition_def demo_head_def)
  have wfb: "well_formed_batch demo_head demo_nets [[7]] [(1, 1)] [[10], [20], [30]]
            [[demo_box 0, demo_box 1, demo_box 2]] [[0, 2, 1]] [[1, 1 / 2, 1 / 4]] None"
    by (simp add: well_formed_batch_def well_formed_image_def skip_condition_def demo_head_def
          demo_nets_def)
  have tr: "False \<longrightarrow> (None :: target list option) \<noteq> None" by simp
  from output_pairs_are_cross_product_without_self_pairs[OF wfb tr] obtain out where
    A: "forward demo_head demo_nets False [[7]] [(1, 1)] [[10], [20], [30]]
            [[demo_box 0, demo_box 1, demo_box 2]] [[0, 2, 1]] [[1, 1 / 2, 1 / 4]] None = Inr out"
    and L: "length (all_boxes_h out) = length [[demo_box 0, demo_box 1, demo_box 2]]"
      "length (all_boxes_o out) = length [[demo_box 0, demo_box 1, demo_box 2]]"
      "length (all_object_class out) = length [[demo_box 0, demo_box 1, demo_box 2]]"
    and P: "\<And>k. k < length [[demo_box 0, demo_box 1, demo_box 2]] \<Longrightarrow>
        \<not> skip_condition demo_head ([[demo_box 0, demo_box 1, demo_box 2]] ! k) ([[0, 2, 1]] ! k) \<Longrightarrow>
          (\<exists>pairs.
              set pairs = {(i, j). i < length (filter (\<lambda>l. l = human_idx demo_head) ([[0, 2, 1]] ! k))
                                   \<and> j < length ([[demo_box 0, demo_box 1, demo_box 2]] ! k) \<and> i \<noteq> j}
            \<and> distinct pairs
            \<and> length pairs = length (filter (\<lambda>l. l = human_idx demo_head) ([[0, 2, 1]] ! k))
                                * length ([[demo_box 0, demo_box 1, demo_box 2]] ! k)
                              - length (filter (\<lambda>l. l = human_idx demo_head) ([[0, 2, 1]] ! k))
            \<and> pairs \<noteq> []
            \<and> all_boxes_h out ! k = map (\<lambda>(i, j). [[demo_box 0, demo_box 1, demo_box 2]] ! k ! i) pairs
            \<and> all_boxes_o out ! k = map (\<lambda>(i, j). [[demo_box 0, demo_box 1, demo_box 2]] ! k ! j) pairs
            \<and> all_object_class out ! k = map (\<lambda>(i, j). [[0, 2, 1]] ! k ! j) pairs
            \<and> (\<forall>p\<in>set (all_prior out ! k). length (rows p) = length pairs))"
    by (elim exE conjE) blast
  have k0: "(0 :: nat) < length [[demo_box 0, demo_box 1, demo_box 2]]" by simp
  have c0: "[[demo_box 0, demo_box 1, demo_box 2]] ! 0 = [demo_box 0, demo_box 1, demo_box 2]"
    and l0: "[[0, 2, 1 :: nat]] ! 0 = [0, 2, 1]"
    and nh: "length (filter (\<lambda>l. l = human_idx demo_head) [0, 2, 1]) = 1"
    and n3: "length [demo_box 0, demo_box 1, demo_box 2] = 3"
    and b1: "length [[demo_box 0, demo_box 1, demo_box 2]] = 1"
    by (simp_all add: demo_head_def)
  note Q = P[OF k0 ns, unfolded c0 l0 nh n3]
  show ?thesis
    by (intro exI[of _ out] conjI A L[unfolded b1] Q)
qed


text \<open>
  Claim C4. On a well-formed batch \<open>forward\<close> returns, and for an image \<open>k\<close> that is not
  skipped the prior it returns is a pair of \<open>pairs \<times> num_cls\<close> arrays, human prior first,
  over the same pairs \<open>(i, j)\<close> (human index, object index) at which the output boxes and
  object classes are read. In row \<open>e\<close>, for the pair \<open>(i, j)\<close>, the entry of class \<open>c\<close> is
  zero in both arrays when \<open>c\<close> is not in the class list mapped to the label of detection
  \<open>j\<close>; when it is, the human prior is the square of the score of detection \<open>i\<close> and the
  object prior the square of the score of detection \<open>j\<close>.
\<close>

theorem prior_scores_follow_class_mapping:
  assumes wf: "well_formed_batch self nets features image_shapes box_features box_coords
      box_labels box_scores targets"
    and tr: "training \<longrightarrow> targets \<noteq> None"
  shows "\<exists>out. forward self nets training features image_shapes box_features box_coords
             box_labels box_scores targets = Inr out
     \<and> length (all_prior out) = length box_coords
     \<and> (\<forall>k<length box_coords. \<not> skip_condition self (box_coords ! k) (box_labels ! k) \<longrightarrow>
          (\<exists>pairs prior_h prior_o.
              set pairs = {(i, j). i < length (filter (\<lambda>l. l = human_idx self) (box_labels ! k))
                                   \<and> j < length (box_coords ! k) \<and> i \<noteq> j}
            \<and> all_boxes_h out ! k = map (\<lambda>(i, j). box_coords ! k ! i) pairs
            \<and> all_boxes_o out ! k = map (\<lambda>(i, j). box_coords ! k ! j) pairs
            \<and> all_object_class out ! k = map (\<lambda>(i, j). box_labels ! k ! j) pairs
            \<and> all_prior out ! k = [prior_h, prior_o]
            \<and> ncols prior_h = num_cls self \<and> length (rows prior_h) = length pairs
            \<and> ncols prior_o = num_cls self \<and> length (rows prior_o) = length pairs
            \<and> (\<forall>e<length pairs. \<forall>c<num_cls self.
                  rows prior_h ! e ! c
                  = (if c \<in> set (object_class_to_target_class self
                                    ! (box_labels ! k ! snd (pairs ! e)))
                     then (box_scores ! k ! fst (pairs ! e)) ^ 2 else 0)
                \<and> rows prior_o ! e ! c
                  = (if c \<in> set (object_class_to_target_class self
                                    ! (box_labels ! k ! snd (pairs ! e)))
                     then (box_scores ! k ! snd (pairs ! e)) ^ 2 else 0))))"
proof -
  have lens: "length box_labels = length box_coords" "length box_scores = length box_coords"
    using wf by (simp_all add: well_formed_batch_def)
  from forward_total[OF wf tr] obtain out where
    res: "forward self nets training features image_shapes box_features box_coords
             box_labels box_scores targets = Inr out"
    by (rule exE)
  note l = forward_lengths[OF res lens]
  have body: "\<exists>pairs prior_h prior_o.
              set pairs = {(i, j). i < length (filter (\<lambda>l. l = human_idx self) (box_labels ! k))
                                   \<and> j < length (box_coords ! k) \<and> i \<noteq> j}
            \<and> all_boxes_h out ! k = map (\<lambda>(i, j). box_coords ! k ! i) pairs
            \<and> all_boxes_o out ! k = map (\<lambda>(i, j). box_coords ! k ! j) pairs
            \<and> all_object_class out ! k = map (\<lambda>(i, j). box_labels ! k ! j) pairs
            \<and> all_prior out ! k = [prior_h, prior_o]
            \<and> ncols prior_h = num_cls self \<and> length (rows prior_h) = length pairs
            \<and> ncols prior_o = num_cls self \<and> length (rows prior_o) = length pairs
            \<and> (\<forall>e<length pairs. \<forall>c<num_cls self.
                  rows prior_h ! e ! c
                  = (if c \<in> set (object_class_to_target_class self
                                    ! (box_labels ! k ! snd (pairs ! e)))
                     then (box_scores ! k ! fst (pairs ! e)) ^ 2 else 0)
                \<and> rows prior_o ! e ! c
                  = (if c \<in> set (object_class_to_target_class self
                                    ! (box_labels ! k ! snd (pairs ! e)))
                     then (box_scores ! k ! snd (pairs ! e)) ^ 2 else 0))"
    if k: "k < length box_coords"
      and ns: "\<not> skip_condition self (box_coords ! k) (box_labels ! k)" for k
  proof -
    let ?n = "length (box_coords ! k)"
    let ?n_h = "length (filter (\<lambda>l. l = human_idx self) (box_labels ! k))"
    let ?kp = "kept_pairs ?n_h ?n"
    have "\<exists>r. forward_image self nets image_shapes (avg_pool nets features)
                 (map (box_head nets) box_features) targets k
                 (counter_after self (take k (zip box_coords (zip box_labels box_scores))))
                 (box_coords ! k) (box_labels ! k) (box_scores ! k) = Inr r
             \<and> all_box_pair_features out ! k = io_box_pair_features r
             \<and> all_boxes_h out ! k = io_boxes_h r
             \<and> all_boxes_o out ! k = io_boxes_o r
             \<and> all_object_class out ! k = io_object_class r
             \<and> all_prior out ! k = io_prior r"
    proof (rule forward_nth_not_skipped[OF res _ _ _ ns])
      show "k < length box_coords" by (rule k)
      show "k < length box_labels" using k lens by simp
      show "k < length box_scores" using k lens by simp
    qed
    then obtain r where
      r: "forward_image self nets image_shapes (avg_pool nets features)
                 (map (box_head nets) box_features) targets k
                 (counter_after self (take k (zip box_coords (zip box_labels box_scores))))
                 (box_coords ! k) (box_labels ! k) (box_scores ! k) = Inr r"
      and o: "all_boxes_h out ! k = io_boxes_h r" "all_boxes_o out ! k = io_boxes_o r"
        "all_object_class out ! k = io_object_class r" "all_prior out ! k = io_prior r"
      by blast
    note f = forward_image_Inr[OF r refl refl]
    have bh: "gather (box_coords ! k) (map fst ?kp) = Inr (io_boxes_h r)"
      by (rule f[THEN conjunct2, THEN conjunct2, THEN conjunct1])
    have bo: "gather (box_coords ! k) (map snd ?kp) = Inr (io_boxes_o r)"
      by (rule f[THEN conjunct2, THEN conjunct2, THEN conjunct2, THEN conjunct1])
    have oc: "gather (box_labels ! k) (map snd ?kp) = Inr (io_object_class r)"
      by (rule f[THEN conjunct2, THEN conjunct2, THEN conjunct2, THEN conjunct2, THEN conjunct1])
    have pr: "compute_prior_scores self (map fst ?kp) (map snd ?kp)
               (box_scores ! k) (box_labels ! k) = Inr (io_prior r)"
      by (rule f[THEN conjunct2, THEN conjunct2, THEN conjunct2, THEN conjunct2, THEN conjunct2,
            THEN conjunct1])
    have "length (map fst ?kp) = length (map snd ?kp)" by simp
    from compute_prior_scores_Inr[OF pr this] obtain ph po where
      p1: "io_prior r = [ph, po]"
      and p2: "ncols ph = num_cls self" "length (rows ph) = length (map fst ?kp)"
        "ncols po = num_cls self" "length (rows po) = length (map fst ?kp)"
      and p3: "\<forall>i<length (map fst ?kp). \<forall>c<num_cls self.
          rows ph ! i ! c = (if c \<in> set (object_class_to_target_class self
                 ! (box_labels ! k ! (map snd ?kp ! i)))
             then (box_scores ! k ! (map fst ?kp ! i)) ^ 2 else 0)
        \<and> rows po ! i ! c = (if c \<in> set (object_class_to_target_class self
                 ! (box_labels ! k ! (map snd ?kp ! i)))
             then (box_scores ! k ! (map snd ?kp ! i)) ^ 2 else 0)"
      by blast
    have e1: "all_boxes_h out ! k = map (\<lambda>(i, j). box_coords ! k ! i) ?kp"
      unfolding o gather_Inr_map[OF bh] by (simp add: comp_def case_prod_unfold)
    have e2: "all_boxes_o out ! k = map (\<lambda>(i, j). box_coords ! k ! j) ?kp"
      unfolding o gather_Inr_map[OF bo] by (simp add: comp_def case_prod_unfold)
    have e3: "all_object_class out ! k = map (\<lambda>(i, j). box_labels ! k ! j) ?kp"
      unfolding o gather_Inr_map[OF oc] by (simp add: comp_def case_prod_unfold)
    have e4: "all_prior out ! k = [ph, po]" unfolding o by (rule p1)
    have s1: "length (rows ph) = length ?kp" using p2(2) by simp
    have s2: "length (rows po) = length ?kp" using p2(4) by simp
    have vals: "\<forall>e<length ?kp. \<forall>c<num_cls self.
                  rows ph ! e ! c
                  = (if c \<in> set (object_class_to_target_class self
                                    ! (box_labels ! k ! snd (?kp ! e)))
                     then (box_scores ! k ! fst (?kp ! e)) ^ 2 else 0)
                \<and> rows po ! e ! c
                  = (if c \<in> set (object_class_to_target_class self
                                    ! (box_labels ! k ! snd (?kp ! e)))
                     then (box_scores ! k ! snd (?kp ! e)) ^ 2 else 0)"
    proof (intro allI impI)
      fix e c assume e: "e < length ?kp" and c: "c < num_cls self"
      have "e < length (map fst ?kp)" using e by simp
      from p3[rule_format, OF this c] show "rows ph ! e ! c
                  = (if c \<in> set (object_class_to_target_class self
                                    ! (box_labels ! k ! snd (?kp ! e)))
                     then (box_scores ! k ! fst (?kp ! e)) ^ 2 else 0)
                \<and> rows po ! e ! c
                  = (if c \<in> set (object_class_to_target_class self
                                    ! (box_labels ! k ! snd (?kp ! e)))
                     then (box_scores ! k ! snd (?kp ! e)) ^ 2 else 0)"
        using e by (simp only: nth_map)
    qed
    show ?thesis
      by (intro exI[where x = "?kp"] exI[where x = ph] exI[where x = po] conjI
            set_kept_pairs e1 e2 e3 e4 p2(1) p2(3) s1 s2 vals)
  qed
  show ?thesis
  proof (intro exI[of _ out] conjI allI impI)
    show "forward self nets training features image_shapes box_features box_coords
             box_labels box_scores targets = Inr out" by (rule res)
    show "length (all_prior out) = length box_coords" by (rule l(5))
  next
    fix k assume "k < length box_coords" "\<not> skip_condition self (box_coords ! k) (box_labels ! k)"
    then show "\<exists>pairs prior_h prior_o.
              set pairs = {(i, j). i < length (filter (\<lambda>l. l = human_idx self) (box_labels ! k))
                                   \<and> j < length (box_coords ! k) \<and> i \<noteq> j}
            \<and> all_boxes_h out ! k = map (\<lambda>(i, j). box_coords ! k ! i) pairs
            \<and> all_boxes_o out ! k = map (\<lambda>(i, j). box_coords ! k ! j) pairs
            \<and> all_object_class out ! k = map (\<lambda>(i, j). box_labels ! k ! j) pairs
            \<and> all_prior out ! k = [prior_h, prior_o]
            \<and> ncols prior_h = num_cls self \<and> length (rows prior_h) = length pairs
            \<and> ncols prior_o = num_cls self \<and> length (rows prior_o) = length pairs
            \<and> (\<forall>e<length pairs. \<forall>c<num_cls self.
                  rows prior_h ! e ! c
                  = (if c \<in> set (object_class_to_target_class self
                                    ! (box_labels ! k ! snd (pairs ! e)))
                     then (box_scores ! k ! fst (pairs ! e)) ^ 2 else 0)
                \<and> rows prior_o ! e ! c
                  = (if c \<in> set (object_class_to_target_class self
                                    ! (box_labels ! k ! snd (pairs ! e)))
                     then (box_scores ! k ! snd (pairs ! e)) ^ 2 else 0))"
      by (rule body)
  qed
qed

theorem prior_scores_follow_class_mapping_witness:
  "\<exists>out. forward demo_head demo_nets False [[7]] [(1, 1)] [[10], [20], [30]]
            [[demo_box 0, demo_box 1, demo_box 2]] [[0, 2, 1]] [[1, 1 / 2, 1 / 4]] None = Inr out
     \<and> length (all_prior out) = 1
     \<and> all_prior out = [[\<lparr>ncols = 2, rows = [[1, 1], [0, 1]]\<rparr>,
                         \<lparr>ncols = 2, rows = [[1 / 4, 1 / 4], [0, 1 / 16]]\<rparr>]]
     \<and> (\<exists>pairs prior_h prior_o.
              set pairs = {(i, j). i < 1 \<and> j < 3 \<and> i \<noteq> j}
            \<and> all_boxes_h out ! 0
                = map (\<lambda>(i, j). [demo_box 0, demo_box 1, demo_box 2] ! i) pairs
            \<and> all_boxes_o out ! 0
                = map (\<lambda>(i, j). [demo_box 0, demo_box 1, demo_box 2] ! j) pairs
            \<and> all_object_class out ! 0 = map (\<lambda>(i, j). [0, 2, 1] ! j) pairs
            \<and> all_prior out ! 0 = [prior_h, prior_o]
            \<and> ncols prior_h = num_cls demo_head \<and> length (rows prior_h) = length pairs
            \<and> ncols prior_o = num_cls demo_head \<and> length (rows prior_o) = length pairs
            \<and> (\<forall>e<length pairs. \<forall>c<num_cls demo_head.
                  rows prior_h ! e ! c
                  = (if c \<in> set (object_class_to_target_class demo_head
                                    ! ([0, 2, 1] ! snd (pairs ! e)))
                     then ([1, 1 / 2, 1 / 4] ! fst (pairs ! e)) ^ 2 else 0)
                \<and> rows prior_o ! e ! c
                  = (if c \<in> set (object_class_to_target_class demo_head
                                    ! ([0, 2, 1] ! snd (pairs ! e)))
                     then ([1, 1 / 2, 1 / 4] ! snd (pairs ! e)) ^ 2 else 0)))"
proof -
  have ns: "\<not> skip_condition demo_head ([[demo_box 0, demo_box 1, demo_box 2]] ! 0) ([[0, 2, 1]] ! 0)"
    by (simp add: skip_condition_def demo_head_def)
  have wfb: "well_formed_batch demo_head demo_nets [[7]] [(1, 1)] [[10], [20], [30]]
            [[demo_box 0, demo_box 1, demo_box 2]] [[0, 2, 1]] [[1, 1 / 2, 1 / 4]] None"
    by (simp add: well_formed_batch_def well_formed_image_def skip_condition_def demo_head_def
          demo_nets_def)
  have tr: "False \<longrightarrow> (None :: target list option) \<noteq> None" by simp
  have ev: "forward demo_head demo_nets False [[7]] [(1, 1)] [[10], [20], [30]]
     [[demo_box 0, demo_box 1, demo_box 2]] [[0, 2, 1]] [[1, 1 / 2, 1 / 4]] None
   = Inr \<lparr>all_box_pair_features = [\<lparr>ncols = 2, rows = [[10], [20], [30]]\<rparr>],
        all_boxes_h = [[demo_box 0, demo_box 0]],
        all_boxes_o = [[demo_box 1, demo_box 2]], all_object_class = [[2, 1]],
        all_labels = [],
        all_prior =
          [[\<lparr>ncols = 2, rows = [[1, 1], [0, 1]]\<rparr>,
            \<lparr>ncols = 2, rows = [[1 / 4, 1 / 4], [0, 1 / 16]]\<rparr>]]\<rparr>"
    by code_simp
  from prior_scores_follow_class_mapping[OF wfb tr] obtain out where
    A: "forward demo_head demo_nets False [[7]] [(1, 1)] [[10], [20], [30]]
            [[demo_box 0, demo_box 1, demo_box 2]] [[0, 2, 1]] [[1, 1 / 2, 1 / 4]] None = Inr out"
    and L: "length (all_prior out) = length [[demo_box 0, demo_box 1, demo_box 2]]"
    and P: "\<And>k. k < length [[demo_box 0, demo_box 1, demo_box 2]] \<Longrightarrow>
        \<not> skip_condition demo_head ([[demo_box 0, demo_box 1, demo_box 2]] ! k) ([[0, 2, 1]] ! k) \<Longrightarrow>
          (\<exists>pairs prior_h prior_o.
              set pairs = {(i, j). i < length (filter (\<lambda>l. l = human_idx demo_head) ([[0, 2, 1]] ! k))
                                   \<and> j < length ([[demo_box 0, demo_box 1, demo_box 2]] ! k) \<and> i \<noteq> j}
            \<and> all_boxes_h out ! k = map (\<lambda>(i, j). [[demo_box 0, demo_box 1, demo_box 2]] ! k ! i) pairs
            \<and> all_boxes_o out ! k = map (\<lambda>(i, j). [[demo_box 0, demo_box 1, demo_box 2]] ! k ! j) pairs
            \<and> all_object_class out ! k = map (\<lambda>(i, j). [[0, 2, 1]] ! k ! j) pairs
            \<and> all_prior out ! k = [prior_h, prior_o]
            \<and> ncols prior_h = num_cls demo_head \<and> length (rows prior_h) = length pairs
            \<and> ncols prior_o = num_cls demo_head \<and> length (rows prior_o) = length pairs
            \<and> (\<forall>e<length pairs. \<forall>c<num_cls demo_head.
                  rows prior_h ! e ! c
                  = (if c \<in> set (object_class_to_target_class demo_head
                                    ! ([[0, 2, 1]] ! k ! snd (pairs ! e)))
                     then ([[1, 1 / 2, 1 / 4]] ! k ! fst (pairs ! e)) ^ 2 else 0)
                \<and> rows prior_o ! e ! c
                  = (if c \<in> set (object_class_to_target_class demo_head
                                    ! ([[0, 2, 1]] ! k ! snd (pairs ! e)))
                     then ([[1, 1 / 2, 1 / 4]] ! k ! snd (pairs ! e)) ^ 2 else 0)))"
    by (elim exE conjE) blast
  have k0: "(0 :: nat) < length [[demo_box 0, demo_box 1, demo_box 2]]" by simp
  have c0: "[[demo_box 0, demo_box 1, demo_box 2]] ! 0 = [demo_box 0, demo_box 1, demo_box 2]"
    and l0: "[[0, 2, 1 :: nat]] ! 0 = [0, 2, 1]"
    and s0: "[[1, 1 / 2, 1 / 4 :: real]] ! 0 = [1, 1 / 2, 1 / 4]"
    and nh: "length (filter (\<lambda>l. l = human_idx demo_head) [0, 2, 1]) = 1"
    and n3: "length [demo_box 0, demo_box 1, demo_box 2] = 3"
    and b1: "length [[demo_box 0, demo_box 1, demo_box 2]] = 1"
    by (simp_all add: demo_head_def)
  note Q = P[OF k0 ns, unfolded c0 l0 s0 nh n3]
  have E: "all_prior out = [[\<lparr>ncols = 2, rows = [[1, 1], [0, 1]]\<rparr>,
                         \<lparr>ncols = 2, rows = [[1 / 4, 1 / 4], [0, 1 / 16]]\<rparr>]]"
    using A ev by simp
  show ?thesis
    by (intro exI[of _ out] conjI A L[unfolded b1] E Q)
qed

text \<open>
  Claim C9 does not hold for the code. The skip branch leaves the loop body with
  \<open>continue\<close> before \<open>counter += n\<close>, so an image after a skipped image that has
  detections reads the rows of the skipped image. Below, image 0 has one detection (row
  \<open>[10]\<close> of the box features) and is skipped; image 1 has a human and an object, whose
  pooled features are the rows \<open>[20]\<close> and \<open>[30]\<close>. The \<open>pair_head\<close> of the configuration
  returns the node encodings it receives: image 1 has read \<open>[10]\<close> and \<open>[20]\<close>.
\<close>

theorem skipped_image_does_not_advance_counter:
  "forward demo_head demo_nets False [[7], [8]] [(1, 1), (1, 1)] [[10], [20], [30]]
     [[demo_box 0], [demo_box 1, demo_box 2]] [[1], [0, 2]] [[1 / 2], [1 / 2, 1 / 4]] None
   = Inr \<lparr>all_box_pair_features = [\<lparr>ncols = 2, rows = []\<rparr>, \<lparr>ncols = 2, rows = [[10], [20]]\<rparr>],
        all_boxes_h = [[], [demo_box 1]],
        all_boxes_o = [[], [demo_box 2]], all_object_class = [[], [2]],
        all_labels = [\<lparr>ncols = 2, rows = []\<rparr>],
        all_prior =
          [[\<lparr>ncols = 2, rows = []\<rparr>, \<lparr>ncols = 2, rows = []\<rparr>],
           [\<lparr>ncols = 2, rows = [[1 / 4, 1 / 4]]\<rparr>,
            \<lparr>ncols = 2, rows = [[1 / 16, 1 / 16]]\<rparr>]]\<rparr>"
  by code_simp

section \<open>The labels list in inference mode\<close>

lemma image_results_labels_inference:
  assumes "image_results self nets image_shapes gf bf None b_idx counter batch = Inr rs"
  shows "concat (map (\<lambda>r. case io_labels r of None \<Rightarrow> [] | Some l \<Rightarrow> [l]) rs)
       = replicate (length (filter (\<lambda>(coords, labels, scores). skip_condition self coords labels) batch))
           (zeros 0 (num_cls self))"
  using assms
proof (induction batch arbitrary: b_idx counter rs)
  case Nil
  then show ?case by simp
next
  case (Cons img rest)
  obtain coords labels scores where img: "img = (coords, labels, scores)" by (cases img)
  show ?case
  proof (cases "skip_condition self coords labels")
    case True
    with Cons.prems obtain rs' where
      rs': "image_results self nets image_shapes gf bf None (Suc b_idx) counter rest = Inr rs'"
      and rs: "rs = empty_image self # rs'"
      unfolding img by (auto simp: ebind_Inr_iff)
    from Cons.IH[OF rs'] True show ?thesis
      unfolding img rs by (simp add: empty_image_def)
  next
    case False
    with Cons.prems obtain r rs' where
      r: "forward_image self nets image_shapes gf bf None b_idx counter coords labels scores = Inr r"
      and rs': "image_results self nets image_shapes gf bf None (Suc b_idx)
                (counter + length coords) rest = Inr rs'"
      and rs: "rs = r # rs'"
      unfolding img by (auto simp: ebind_Inr_iff)
    have "io_labels r = None" using forward_image_Inr[OF r refl refl] by simp
    with Cons.IH[OF rs'] False show ?thesis
      unfolding img rs by simp
  qed
qed

text \<open>
  Claim C10, as the code has it. When \<open>forward\<close> is called without targets and returns,
  the labels list holds exactly one \<open>0 \<times> num_cls\<close> entry for each image taken by the skip
  test and no entry for any other image. So it is never longer than the batch, it is
  strictly shorter exactly when the batch has an image that is not skipped, and for a batch
  with at least one skipped image it is non-empty, so that the empty-labels check of
  \<open>postprocess\<close> keeps these labels and substitutes no \<open>None\<close>.
\<close>

theorem inference_labels_one_entry_per_skipped_image:
  assumes res: "forward self nets False features image_shapes box_features box_coords box_labels
             box_scores None = Inr out"
    and batch: "batch = zip box_coords (zip box_labels box_scores)"
    and skipped: "skipped = filter (\<lambda>(coords, labels, scores). skip_condition self coords labels) batch"
  shows "all_labels out = replicate (length skipped) \<lparr>ncols = num_cls self, rows = []\<rparr>
     \<and> length (all_boxes_h out) = length batch
     \<and> length (all_labels out) \<le> length batch
     \<and> (length (all_labels out) < length batch
          \<longleftrightarrow> (\<exists>(coords, labels, scores)\<in>set batch. \<not> skip_condition self coords labels))
     \<and> (skipped \<noteq> [] \<longrightarrow>
          all_labels out \<noteq> []
          \<and> labels_or_none (all_labels out) (length (all_boxes_h out)) = map Some (all_labels out))"
proof -
  from forward_Inr[OF res] obtain rs where
    rs: "image_results self nets image_shapes (avg_pool nets features)
           (map (box_head nets) box_features) None 0 0 batch = Inr rs"
    and out: "out = append_results
                \<lparr>all_box_pair_features = [], all_boxes_h = [], all_boxes_o = [],
                 all_object_class = [], all_labels = [], all_prior = []\<rparr> rs"
    unfolding batch by blast
  have lab: "all_labels out = replicate (length skipped) \<lparr>ncols = num_cls self, rows = []\<rparr>"
    unfolding out append_results_def skipped
    using image_results_labels_inference[OF rs] by (simp add: zeros_def)
  have len: "length (all_boxes_h out) = length batch"
    unfolding out append_results_def using image_results_length[OF rs] by simp
  have le: "length skipped \<le> length batch" unfolding skipped by (rule length_filter_le)
  have lt: "length skipped < length batch
          \<longleftrightarrow> (\<exists>(coords, labels, scores)\<in>set batch. \<not> skip_condition self coords labels)"
  proof
    assume "length skipped < length batch"
    then have "skipped \<noteq> batch" by auto
    then show "\<exists>(coords, labels, scores)\<in>set batch. \<not> skip_condition self coords labels"
      unfolding skipped by (auto simp: filter_id_conv)
  next
    assume "\<exists>(coords, labels, scores)\<in>set batch. \<not> skip_condition self coords labels"
    then obtain img where "img \<in> set batch"
      "\<not> (\<lambda>(coords, labels, scores). skip_condition self coords labels) img"
      by auto
    then show "length skipped < length batch"
      unfolding skipped by (rule length_filter_less)
  qed
  show ?thesis
    using lab len le lt by (auto simp: labels_or_none_def)
qed

theorem inference_labels_one_entry_per_skipped_image_witness:
  "[\<lparr>ncols = 2, rows = []\<rparr>] = replicate (length [([demo_box 0], [1 :: nat], [1 / 2 :: real])])
       \<lparr>ncols = num_cls demo_head, rows = []\<rparr>
   \<and> labels_or_none [\<lparr>ncols = 2, rows = []\<rparr>] 2 = [Some \<lparr>ncols = 2, rows = []\<rparr>]"
proof -
  have ev: "forward demo_head demo_nets False [[7], [8]] [(1, 1), (1, 1)] [[10], [20], [30]]
     [[demo_box 0], [demo_box 1, demo_box 2]] [[1], [0, 2]] [[1 / 2], [1 / 2, 1 / 4]] None
   = Inr \<lparr>all_box_pair_features = [\<lparr>ncols = 2, rows = []\<rparr>, \<lparr>ncols = 2, rows = [[10], [20]]\<rparr>],
        all_boxes_h = [[], [demo_box 1]],
        all_boxes_o = [[], [demo_box 2]], all_object_class = [[], [2]],
        all_labels = [\<lparr>ncols = 2, rows = []\<rparr>],
        all_prior =
          [[\<lparr>ncols = 2, rows = []\<rparr>, \<lparr>ncols = 2, rows = []\<rparr>],
           [\<lparr>ncols = 2, rows = [[1 / 4, 1 / 4]]\<rparr>,
            \<lparr>ncols = 2, rows = [[1 / 16, 1 / 16]]\<rparr>]]\<rparr>"
    by code_simp
  have sk: "[([demo_box 0], [1 :: nat], [1 / 2 :: real])]
      = filter (\<lambda>(coords, labels, scores). skip_condition demo_head coords labels)
          (zip [[demo_box 0], [demo_box 1, demo_box 2]] (zip [[1], [0, 2]] [[1 / 2], [1 / 2, 1 / 4]]))"
    by (simp add: skip_condition_def demo_head_def)
  from inference_labels_one_entry_per_skipped_image[OF ev refl sk]
  show ?thesis by (simp add: labels_or_none_def demo_head_def)
qed

text \<open>
  The claim as stated says that with a skipped image in the batch the labels list is
  shorter than the batch. A batch of one image that is skipped (one detection) returns a
  labels list of one entry, as long as the batch.
\<close>

theorem labels_of_all_skipped_batch_not_shorter:
  "forward demo_head demo_nets False [[7]] [(1, 1)] [[10]] [[demo_box 0]] [[1]] [[1 / 2]] None
   = Inr \<lparr>all_box_pair_features = [\<lparr>ncols = 2, rows = []\<rparr>],
        all_boxes_h = [[]], all_boxes_o = [[]], all_object_class = [[]],
        all_labels = [\<lparr>ncols = 2, rows = []\<rparr>],
        all_prior = [[\<lparr>ncols = 2, rows = []\<rparr>, \<lparr>ncols = 2, rows = []\<rparr>]]\<rparr>
   \<and> skip_condition demo_head [demo_box 0] [1]
   \<and> \<not> length [\<lparr>ncols = 2, rows = []\<rparr>] < length [[demo_box 0]]"
  by (simp add: skip_condition_def demo_head_def forward_def Let_def zeros_def)

end
